theory Spec2Isabelle
  imports Complex_Main "HOL-Library.Sublist" "HOL-Library.AList"
begin

section \<open>Python strings\<close>

text \<open>
  A Python \<^verbatim>\<open>str\<close> is a sequence of Unicode code points, and \<^verbatim>\<open>len\<close>, slicing and the
  regular expression \<^verbatim>\<open>.\<close> all count code points. The sources contain literals beyond
  Latin-1 (the checklist markers), so a string is a list of code points here, and an
  ASCII literal of the source is written \<open>asc ''...''\<close>.
\<close>

type_synonym ustring = "nat list"

definition asc :: "string \<Rightarrow> ustring" where
  "asc s = map of_char s"

text \<open>
  The tables of the Python library that depend on the Unicode database of the running
  interpreter are parameters of the model: \<^verbatim>\<open>str.lower\<close>, the class \<^verbatim>\<open>\d\<close> of decimal
  digits and the relation "pattern character \<open>p\<close> matches text character \<open>c\<close> under
  \<^verbatim>\<open>re.IGNORECASE\<close>". \<open>ascii_lib\<close> is the instance that agrees with Python on ASCII text.
\<close>

record pylib =
  str_lower :: "ustring \<Rightarrow> ustring"
  re_digit :: "nat \<Rightarrow> bool"
  re_ichar :: "nat \<Rightarrow> nat \<Rightarrow> bool"

definition ascii_lower_char :: "nat \<Rightarrow> nat" where
  "ascii_lower_char c = (if 65 \<le> c \<and> c \<le> 90 then c + 32 else c)"

definition ascii_lib :: pylib where
  "ascii_lib = \<lparr> str_lower = map ascii_lower_char,
                 re_digit = (\<lambda>c. 48 \<le> c \<and> c \<le> 57),
                 re_ichar = (\<lambda>p c. ascii_lower_char p = ascii_lower_char c) \<rparr>"

text \<open>
  The white space of \<^verbatim>\<open>str.strip()\<close> and of \<^verbatim>\<open>\s\<close> (both test \<^verbatim>\<open>Py_UNICODE_ISSPACE\<close>).
\<close>

definition is_space :: "nat \<Rightarrow> bool" where
  "is_space c = (c \<in> set [9, 10, 11, 12, 13, 28, 29, 30, 31, 32, 133, 160, 5760,
      8192, 8193, 8194, 8195, 8196, 8197, 8198, 8199, 8200, 8201, 8202,
      8232, 8233, 8239, 8287, 12288])"

definition py_lstrip :: "ustring \<Rightarrow> ustring" where
  "py_lstrip s = dropWhile is_space s"

definition py_strip :: "ustring \<Rightarrow> ustring" where
  "py_strip s = rev (dropWhile is_space (rev (dropWhile is_space s)))"

text \<open>\<^verbatim>\<open>s.find(pat)\<close>: the index of the first occurrence, \<open>None\<close> for Python's -1.\<close>

fun find_sub :: "'a list \<Rightarrow> 'a list \<Rightarrow> nat option" where
  "find_sub pat [] = (if pat = [] then Some 0 else None)"
| "find_sub pat (x # xs) =
     (if prefix pat (x # xs) then Some 0 else map_option Suc (find_sub pat xs))"

text \<open>\<^verbatim>\<open>pat in s\<close>\<close>

definition py_in :: "'a list \<Rightarrow> 'a list \<Rightarrow> bool" where
  "py_in pat s = (find_sub pat s \<noteq> None)"

text \<open>\<^verbatim>\<open>s.split('\n')\<close> and \<^verbatim>\<open>'\n'.join(ls)\<close>\<close>

fun split_nl :: "ustring \<Rightarrow> ustring list" where
  "split_nl [] = [[]]"
| "split_nl (c # cs) =
     (if c = 10 then [] # split_nl cs
      else (c # hd (split_nl cs)) # tl (split_nl cs))"

fun join_nl :: "ustring list \<Rightarrow> ustring" where
  "join_nl [] = []"
| "join_nl [l] = l"
| "join_nl (l # ls) = l @ [10] @ join_nl ls"

text \<open>\<^verbatim>\<open>str(n)\<close> for a non-negative integer, and the number a decimal numeral denotes.\<close>

fun py_str_nat :: "nat \<Rightarrow> ustring" where
  "py_str_nat n = (if n < 10 then [48 + n] else py_str_nat (n div 10) @ [48 + n mod 10])"

declare py_str_nat.simps [simp del]

definition decimal_value :: "ustring \<Rightarrow> nat" where
  "decimal_value ds = foldl (\<lambda>a d. 10 * a + (d - 48)) 0 ds"

section \<open>The tag patterns\<close>

text \<open>
  Every tag pattern of the sources has the shape \<^verbatim>\<open>re.search(r"<t>(.*?)</t>", s, re.DOTALL)\<close>.
  The search tries start positions from the left and, with a lazy body that may cross
  lines, succeeds at the first occurrence of the opening tag that has a closing tag behind
  it; a closing tag behind a later opening tag is also behind the first one, so the match
  starts at the first opening tag and its body ends at the first closing tag after it.
  The result is \<open>(match.start(), match.group(1), match.end())\<close>.
\<close>

definition re_search_tag :: "ustring \<Rightarrow> ustring \<Rightarrow> ustring \<Rightarrow> (nat \<times> ustring \<times> nat) option" where
  "re_search_tag otag ctag s =
     (case find_sub otag s of
        None \<Rightarrow> None
      | Some i \<Rightarrow>
          (let rest = drop (i + length otag) s in
           case find_sub ctag rest of
             None \<Rightarrow> None
           | Some j \<Rightarrow> Some (i, take j rest, i + length otag + j + length ctag)))"

section \<open>The Conversation Controller (\<^verbatim>\<open>biomni/agent/a1.py\<close>)\<close>

text \<open>
  The messages are the LangChain classes the source tests with \<^verbatim>\<open>isinstance\<close>; the state
  is the \<^verbatim>\<open>AgentState\<close> dictionary with its two keys. \<^verbatim>\<open>next_step\<close> holds \<^verbatim>\<open>None\<close> at the
  start and afterwards one of the three strings the routing function accepts.
\<close>

datatype message = SystemMessage ustring | HumanMessage ustring | AIMessage ustring

fun content :: "message \<Rightarrow> ustring" where
  "content (SystemMessage c) = c"
| "content (HumanMessage c) = c"
| "content (AIMessage c) = c"

datatype route = Execute | Generate | End

record AgentState =
  messages :: "message list"
  next_step :: "route option"

text \<open>
  One call of \<^verbatim>\<open>self.llm.invoke\<close>: a reply with its content as text, a reply that is
  \<^verbatim>\<open>None\<close> (or whose content is), or an exception with its \<^verbatim>\<open>str()\<close>. The model is a
  function of the attempt number within the step (0 the first call, 1 the retry) and of the
  messages it is given.
\<close>

datatype llm_result = Reply ustring | NullReply | Raises ustring

datatype exn = ValueError ustring | ProviderError ustring | IndexError | AttributeError

type_synonym llm = "nat \<Rightarrow> message list \<Rightarrow> llm_result"

definition is_recoverable :: "pylib \<Rightarrow> ustring \<Rightarrow> bool" where
  "is_recoverable L error_msg =
     list_ex (\<lambda>err. py_in err (str_lower L error_msg))
       [asc ''null value for choices'', asc ''context'', asc ''token'',
        asc ''content filter'', asc ''rate limit'']"

definition truncated_observation :: "ustring \<Rightarrow> ustring" where
  "truncated_observation obs_content =
     asc ''<observation>[TRUNCATED DUE TO CONTEXT OVERFLOW - Original: ''
     @ py_str_nat (length obs_content) @ asc '' chars]'' @ [10]
     @ take 2000 obs_content @ [10] @ asc ''[...truncated...]</observation>''"

text \<open>
  The loop \<^verbatim>\<open>for i in range(len(state["messages"]) - 1, -1, -1)\<close>, with \<open>n = i + 1\<close>: the
  \<^verbatim>\<open>break\<close> stands inside the test of the length, so a short observation does not stop it.
\<close>

fun truncate_last_observation :: "message list \<Rightarrow> nat \<Rightarrow> message list" where
  "truncate_last_observation msgs 0 = msgs"
| "truncate_last_observation msgs (Suc i) =
     (case msgs ! i of
        AIMessage c \<Rightarrow>
          (if py_in (asc ''<observation>'') c then
             (case re_search_tag (asc ''<observation>'') (asc ''</observation>'') c of
                Some (_, obs_content, _) \<Rightarrow>
                  (if length obs_content > 2000
                   then msgs[i := AIMessage (truncated_observation obs_content)]
                   else truncate_last_observation msgs i)
              | None \<Rightarrow> truncate_last_observation msgs i)
           else truncate_last_observation msgs i)
      | _ \<Rightarrow> truncate_last_observation msgs i)"

text \<open>
  To state what the loop does: the observation of a message that the loop would cut, that
  is, of an AI message whose first observation block is longer than 2,000 characters.
\<close>

definition long_observation :: "message \<Rightarrow> ustring option" where
  "long_observation m =
     (case m of
        AIMessage c \<Rightarrow>
          (if py_in (asc ''<observation>'') c then
             (case re_search_tag (asc ''<observation>'') (asc ''</observation>'') c of
                Some (_, obs_content, _) \<Rightarrow> (if length obs_content > 2000 then Some obs_content else None)
              | None \<Rightarrow> None)
           else None)
      | _ \<Rightarrow> None)"

definition fix_incomplete_tags :: "ustring \<Rightarrow> ustring" where
  "fix_incomplete_tags msg0 =
     (let msg1 = (if py_in (asc ''<execute>'') msg0 \<and> \<not> py_in (asc ''</execute>'') msg0
                  then msg0 @ asc ''</execute>'' else msg0);
          msg2 = (if py_in (asc ''<solution>'') msg1 \<and> \<not> py_in (asc ''</solution>'') msg1
                  then msg1 @ asc ''</solution>'' else msg1);
          msg3 = (if py_in (asc ''<think>'') msg2 \<and> \<not> py_in (asc ''</think>'') msg2
                  then msg2 @ asc ''</think>'' else msg2)
      in msg3)"

definition no_tags_instruction :: ustring where
  "no_tags_instruction = asc (''Each response must include thinking process followed by either <execute> or <solution> tag. '' @
     ''But there are no tags in the current response. Please follow the instruction, fix and regenerate the response again.'')"

definition terminated_notice :: ustring where
  "terminated_notice = asc ''Execution terminated due to repeated parsing errors. Please check your input and try again.''"

text \<open>
  \<^verbatim>\<open>sum(1 for m in state["messages"] if isinstance(m, AIMessage) and "There are no tags" in m.content)\<close>
\<close>

definition error_count :: "message list \<Rightarrow> nat" where
  "error_count msgs =
     length (filter (\<lambda>m. case m of AIMessage c \<Rightarrow> py_in (asc ''There are no tags'') c | _ \<Rightarrow> False) msgs)"

text \<open>The second half of \<^verbatim>\<open>generate\<close>, from \<^verbatim>\<open># Parse the response\<close> on.\<close>

definition parse_response :: "ustring \<Rightarrow> AgentState \<Rightarrow> AgentState" where
  "parse_response response_content state =
     (let msg = fix_incomplete_tags response_content;
          think_match = re_search_tag (asc ''<think>'') (asc ''</think>'') msg;
          execute_match = re_search_tag (asc ''<execute>'') (asc ''</execute>'') msg;
          answer_match = re_search_tag (asc ''<solution>'') (asc ''</solution>'') msg;
          state1 = state\<lparr>messages := messages state @ [AIMessage (py_strip msg)]\<rparr>
      in if answer_match \<noteq> None then state1\<lparr>next_step := Some End\<rparr>
         else if execute_match \<noteq> None then state1\<lparr>next_step := Some Execute\<rparr>
         else if think_match \<noteq> None then state1\<lparr>next_step := Some Generate\<rparr>
         else
           (if error_count (messages state1) \<ge> 2
            then state1\<lparr>next_step := Some End,
                        messages := messages state1 @ [AIMessage terminated_notice]\<rparr>
            else state1\<lparr>messages := messages state1 @ [HumanMessage no_tags_instruction],
                        next_step := Some Generate\<rparr>))"

definition auth_failure_solution :: ustring where
  "auth_failure_solution = asc (''<solution>Error: API authentication or endpoint configuration issue. '' @
     ''Please check your Azure OpenAI API key and endpoint settings in the .env file.</solution>'')"

definition overflow_solution :: ustring where
  "overflow_solution = asc (''<solution>Error: The context was too long for the model to process. '' @
     ''The task output exceeded the maximum context window. '' @
     ''Please try breaking down the task into smaller steps or working with smaller data samples.</solution>'')"

text \<open>
  \<^verbatim>\<open>generate\<close>. The result is the exception that leaves the function, or the new state
  together with the list of the message lists \<^verbatim>\<open>self.llm.invoke\<close> was called with, in
  order. The stream writer's progress events are not part of the state and are left out.
\<close>

definition generate :: "pylib \<Rightarrow> ustring \<Rightarrow> llm \<Rightarrow> AgentState \<Rightarrow> exn + (AgentState \<times> message list list)" where
  "generate L system_prompt llm state =
     (let messages0 = SystemMessage system_prompt # messages state in
      case llm 0 messages0 of
        Reply c \<Rightarrow> Inr (parse_response c state, [messages0])
      | first \<Rightarrow>
          (let e = (case first of Raises m \<Rightarrow> ProviderError m
                                | _ \<Rightarrow> ValueError (asc ''Received null response from LLM''));
               error_msg = (case e of ProviderError m \<Rightarrow> m | ValueError m \<Rightarrow> m | _ \<Rightarrow> [])
           in if is_recoverable L error_msg then
                (let state1 = state\<lparr>messages :=
                        truncate_last_observation (messages state) (length (messages state))\<rparr>;
                     messages1 = SystemMessage system_prompt # messages state1;
                     response =
                       (case llm 1 messages1 of
                          Reply c \<Rightarrow> c
                        | second \<Rightarrow>
                            (let e2 = (case second of Raises m \<Rightarrow> m
                                          | _ \<Rightarrow> asc ''Still received null response after truncation'')
                             in if py_in (asc ''api key'') (str_lower L e2)
                                   \<or> py_in (asc ''endpoint'') (str_lower L e2)
                                then auth_failure_solution
                                else overflow_solution))
                 in Inr (parse_response response state1, [messages0, messages1]))
              else Inl e))"

text \<open>
  \<^verbatim>\<open>execute\<close>. A backend is called through \<^verbatim>\<open>run_with_timeout\<close>, which is not among the
  sources; \<open>run\<close> stands for it: the text this call of the backend returns for this code.
\<close>

datatype backend = run_r_code | run_bash_script | run_python_repl

text \<open>
  \<^verbatim>\<open>re.sub(r"^a|^b", "", code, 1)\<close>: without \<^verbatim>\<open>re.MULTILINE\<close> the anchor holds at index 0 only,
  so the first alternative that starts the text is removed, once.
\<close>

definition re_sub_start :: "ustring list \<Rightarrow> ustring \<Rightarrow> ustring" where
  "re_sub_start alts code =
     (case find (\<lambda>a. prefix a code) alts of Some a \<Rightarrow> drop (length a) code | None \<Rightarrow> code)"

definition run_code :: "(backend \<Rightarrow> ustring \<Rightarrow> ustring) \<Rightarrow> ustring \<Rightarrow> ustring" where
  "run_code run code =
     (let start = py_strip code in
      if prefix (asc ''#!R'') start \<or> prefix (asc ''# R code'') start \<or> prefix (asc ''# R script'') start
      then run run_r_code (py_strip (re_sub_start [asc ''#!R'', asc ''# R code'', asc ''# R script''] code))
      else if prefix (asc ''#!BASH'') start \<or> prefix (asc ''# Bash script'') start \<or> prefix (asc ''#!CLI'') start
      then (if prefix (asc ''#!CLI'') start
            then run run_bash_script
                   (map (\<lambda>c. if c = 10 then 32 else c) (py_strip (re_sub_start [asc ''#!CLI''] code)))
            else run run_bash_script (py_strip (re_sub_start [asc ''#!BASH'', asc ''# Bash script''] code)))
      else run run_python_repl code)"

definition MAX_OUTPUT_LENGTH :: nat where
  "MAX_OUTPUT_LENGTH = 10000"

definition SUMMARY_THRESHOLD :: nat where
  "SUMMARY_THRESHOLD = 5000"

text \<open>The block \<^verbatim>\<open># Handle very long outputs more intelligently\<close> of \<^verbatim>\<open>execute\<close>.\<close>

definition handle_long_output :: "ustring \<Rightarrow> ustring" where
  "handle_long_output result =
     (if length result > MAX_OUTPUT_LENGTH then
        (let truncated_result = take MAX_OUTPUT_LENGTH result in
         if py_in (asc ''>'') (take 1000 result) then
           (let lines = split_nl result;
                sequence_count = length (filter (\<lambda>line. prefix (asc ''>'') line) lines);
                total_length = length result
            in join_nl
                 [asc ''[OUTPUT TRUNCATED: '' @ py_str_nat total_length @ asc '' total characters]'',
                  asc ''[Contains '' @ py_str_nat sequence_count @ asc '' sequences/entries]'',
                  asc ''[Showing first 10K characters below]'',
                  replicate 50 61,
                  truncated_result])
         else
           join_nl
             [asc ''[OUTPUT TRUNCATED: '' @ py_str_nat (length result) @ asc '' total characters]'',
              asc ''[First 10K characters shown below]'',
              replicate 50 61,
              truncated_result])
      else if length result > SUMMARY_THRESHOLD then
        asc ''[Output length: '' @ py_str_nat (length result) @ asc '' characters]'' @ [10] @ result
      else result)"

definition execute :: "(backend \<Rightarrow> ustring \<Rightarrow> ustring) \<Rightarrow> AgentState \<Rightarrow> exn + AgentState" where
  "execute run state =
     (if messages state = [] then Inl IndexError
      else
        (let last_message0 = content (last (messages state));
             last_message =
               (if py_in (asc ''<execute>'') last_message0 \<and> \<not> py_in (asc ''</execute>'') last_message0
                then last_message0 @ asc ''</execute>'' else last_message0)
         in case re_search_tag (asc ''<execute>'') (asc ''</execute>'') last_message of
              Some (_, code, _) \<Rightarrow>
                (let result = handle_long_output (run_code run code);
                     observation = [10] @ asc ''<observation>'' @ result @ asc ''</observation>''
                 in Inr (state\<lparr>messages := messages state @ [AIMessage (py_strip observation)]\<rparr>))
            | None \<Rightarrow> Inr state))"



text \<open>The routing after \<^verbatim>\<open>generate\<close>: the node the graph runs next.\<close>

definition routing_function :: "AgentState \<Rightarrow> exn + route" where
  "routing_function state =
     (case next_step state of
        Some s \<Rightarrow> Inr s
      | None \<Rightarrow> Inl (ValueError (asc ''Unexpected next_step: None'')))"

section \<open>Events\<close>

text \<open>
  Both classifiers build their events as dictionaries; one record holds the keys either of
  them sets, an absent key being \<open>None\<close>. A time stamp (\<^verbatim>\<open>time.time()\<close> in the agent,
  \<^verbatim>\<open>datetime.now().isoformat()\<close> in the orchestrator) is a reading of the wall clock: the
  clock is a function from the number of readings taken so far to the time read, and every
  function that reads it takes that number and returns the new one.
\<close>

datatype event_type =
    ty_planning | ty_reasoning | ty_tool_call | ty_tool_output | ty_final_result | ty_thinking
  | ty_observation | ty_ai_message | ty_final_answer | ty_human_message | ty_message

datatype status = pending | completed | failed

record plan_step =
  step :: ustring
  status :: status

datatype priority = HIGH | NORMAL

record event =
  ev_type :: event_type
  ev_timestamp :: real
  ev_content :: "ustring option"
  ev_full_message :: "ustring option"
  ev_subtype :: "ustring option"
  ev_plan_steps :: "plan_step list option"
  ev_steps :: "plan_step list option"
  ev_output :: "ustring option"
  ev_priority :: "priority option"
  ev_tool_id :: "ustring option"
  ev_tool_name :: "ustring option"
  ev_code :: "ustring option"
  ev_language :: "ustring option"
  ev_timeout :: "bool option"
  ev_placeholder :: "bool option"

definition new_event :: "event_type \<Rightarrow> real \<Rightarrow> event" where
  "new_event ty ts =
     \<lparr> ev_type = ty, ev_timestamp = ts, ev_content = None, ev_full_message = None,
       ev_subtype = None, ev_plan_steps = None, ev_steps = None, ev_output = None,
       ev_priority = None, ev_tool_id = None, ev_tool_name = None, ev_code = None,
       ev_language = None, ev_timeout = None, ev_placeholder = None \<rparr>"

type_synonym clock = "nat \<Rightarrow> real"

text \<open>\<^verbatim>\<open>events.append({..., "timestamp": <now>})\<close>: one reading of the clock per event.\<close>

definition append_stamped :: "clock \<Rightarrow> (real \<Rightarrow> event) \<Rightarrow> event list \<times> nat \<Rightarrow> event list \<times> nat" where
  "append_stamped clk mk acc = (fst acc @ [mk (clk (snd acc))], Suc (snd acc))"

section \<open>The Event Classifier (\<^verbatim>\<open>_classify_message_multi\<close> of \<^verbatim>\<open>a1.py\<close>)\<close>

text \<open>
  The argument is any object: \<open>content_attr\<close> is its attribute \<^verbatim>\<open>content\<close> where it has one,
  \<open>str_repr\<close> is \<^verbatim>\<open>str(message)\<close>.
\<close>

record raw_message =
  content_attr :: "ustring option"
  str_repr :: ustring

text \<open>
  The three checklist markers, as the source file spells them: \<^verbatim>\<open>"[ ]"\<close> and two
  five-character strings whose middle characters are U+201A, U+00FA and U+00EC or U+00F3.
\<close>

definition checklist_markers :: "ustring list" where
  "checklist_markers = [asc ''[ ]'', [91, 8218, 250, 236, 93], [91, 8218, 250, 243, 93]]"

text \<open>
  \<^verbatim>\<open>content[:content.index(tag)]\<close>, which the source evaluates behind \<^verbatim>\<open>tag in content\<close> only.
\<close>

definition text_before :: "ustring \<Rightarrow> ustring \<Rightarrow> ustring" where
  "text_before tag s = (case find_sub tag s of Some i \<Rightarrow> take i s | None \<Rightarrow> s)"

text \<open>
  \<^verbatim>\<open>re.match(r'^\d+\.\s*\[.\]\s*', line)\<close>: digits, a full stop, white space, a bracketed
  character other than a newline, white space. No digit is a full stop and no white space is
  a bracket, so the greedy repetitions never give a character back. The result is the text
  behind the match, which is what \<^verbatim>\<open>re.sub\<close> of the same pattern leaves of the line.
\<close>

definition match_plan_line :: "pylib \<Rightarrow> ustring \<Rightarrow> ustring option" where
  "match_plan_line L line =
     (if takeWhile (re_digit L) line = [] then None
      else case dropWhile (re_digit L) line of
             c0 # r0 \<Rightarrow>
               (if c0 = 46 then
                  (case dropWhile is_space r0 of
                     b # c # e # r1 \<Rightarrow>
                       (if b = 91 \<and> c \<noteq> 10 \<and> e = 93 then Some (dropWhile is_space r1) else None)
                   | _ \<Rightarrow> None)
                else None)
           | [] \<Rightarrow> None)"

fun extract_plan_steps :: "pylib \<Rightarrow> ustring list \<Rightarrow> plan_step list" where
  "extract_plan_steps L [] = []"
| "extract_plan_steps L (line # lines) =
     (case match_plan_line L line of
        Some step_text \<Rightarrow>
          \<lparr> step = step_text,
            status = (if py_in [91, 8218, 250, 236, 93] line then completed
                      else if py_in [91, 8218, 250, 243, 93] line then failed
                      else pending) \<rparr> # extract_plan_steps L lines
      | None \<Rightarrow> extract_plan_steps L lines)"

definition text_before_tags :: "ustring \<Rightarrow> ustring" where
  "text_before_tags text =
     (case find (\<lambda>tag. py_in tag text)
             [asc ''<execute>'', asc ''<solution>'', asc ''<observe>'', asc ''<think>''] of
        Some tag \<Rightarrow> text_before tag text
      | None \<Rightarrow> text)"

definition code_type_of :: "ustring \<Rightarrow> ustring" where
  "code_type_of code =
     (if prefix (asc ''#!R'') (py_strip code) then asc ''r''
      else if prefix (asc ''#!BASH'') (py_strip code) then asc ''bash''
      else asc ''python'')"

text \<open>
  The six checks of \<^verbatim>\<open>_classify_message_multi\<close>, in the order of the source (FIRST to
  SIXTH there), each from the list of events so far to the list after it.
\<close>

definition check_planning :: "pylib \<Rightarrow> clock \<Rightarrow> ustring \<Rightarrow> event list \<times> nat \<Rightarrow> event list \<times> nat" where
  "check_planning L clk text events =
     (if list_ex (\<lambda>pattern. py_in pattern text) checklist_markers then
        (let planning_content =
               (if py_in (asc ''<execute>'') text then text_before (asc ''<execute>'') text else text);
             plan_steps = extract_plan_steps L (split_nl planning_content)
         in if plan_steps \<noteq> [] then
              append_stamped clk (\<lambda>ts. (new_event ty_planning ts)
                  \<lparr> ev_content := Some planning_content,
                    ev_plan_steps := Some plan_steps,
                    ev_full_message := Some text \<rparr>) events
            else events)
      else events)"

definition check_reasoning :: "clock \<Rightarrow> ustring \<Rightarrow> event list \<times> nat \<Rightarrow> event list \<times> nat" where
  "check_reasoning clk text events =
     (let before_tags = text_before_tags text in
      if py_strip before_tags \<noteq> []
         \<and> \<not> list_ex (\<lambda>pattern. py_in pattern before_tags) checklist_markers
         \<and> length (py_strip before_tags) > 50
      then append_stamped clk (\<lambda>ts. (new_event ty_reasoning ts)
               \<lparr> ev_content := Some (py_strip before_tags), ev_full_message := Some text \<rparr>) events
      else events)"

definition check_execute :: "clock \<Rightarrow> ustring \<Rightarrow> event list \<times> nat \<Rightarrow> event list \<times> nat" where
  "check_execute clk text events =
     (if py_in (asc ''<execute>'') text then
        (case re_search_tag (asc ''<execute>'') (asc ''</execute>'') text of
           Some (_, code, _) \<Rightarrow>
             append_stamped clk (\<lambda>ts. (new_event ty_tool_call ts)
               \<lparr> ev_subtype := Some (code_type_of code),
                 ev_content := Some code,
                 ev_full_message := Some text \<rparr>) events
         | None \<Rightarrow> events)
      else events)"

text \<open>The last three checks differ in the tag and in the type of the event only.\<close>

definition check_tag ::
    "ustring \<Rightarrow> ustring \<Rightarrow> event_type \<Rightarrow> clock \<Rightarrow> ustring \<Rightarrow> event list \<times> nat \<Rightarrow> event list \<times> nat" where
  "check_tag otag ctag ty clk text events =
     (if py_in otag text then
        (case re_search_tag otag ctag text of
           Some (_, body, _) \<Rightarrow>
             append_stamped clk (\<lambda>ts. (new_event ty ts)
               \<lparr> ev_content := Some body, ev_full_message := Some text \<rparr>) events
         | None \<Rightarrow> events)
      else events)"

definition extracted_events :: "pylib \<Rightarrow> clock \<Rightarrow> nat \<Rightarrow> ustring \<Rightarrow> event list \<times> nat" where
  "extracted_events L clk t0 text =
     check_tag (asc ''<think>'') (asc ''</think>'') ty_thinking clk text
       (check_tag (asc ''<solution>'') (asc ''</solution>'') ty_final_result clk text
         (check_tag (asc ''<observe>'') (asc ''</observe>'') ty_tool_output clk text
           (check_execute clk text
             (check_reasoning clk text
               (check_planning L clk text ([], t0))))))"

definition classify_message_multi :: "pylib \<Rightarrow> clock \<Rightarrow> nat \<Rightarrow> raw_message \<Rightarrow> event list \<times> nat" where
  "classify_message_multi L clk t0 message =
     (let text = (case content_attr message of Some c \<Rightarrow> c | None \<Rightarrow> str_repr message);
          events = extracted_events L clk t0 text
      in if fst events = [] then
           append_stamped clk (\<lambda>ts. (new_event ty_reasoning ts)
             \<lparr> ev_content := Some text, ev_full_message := Some text \<rparr>) events
         else events)"

text \<open>
  To state the order of the events: the place of an event type among the six checks.
\<close>

fun stage_rank :: "event_type \<Rightarrow> nat" where
  "stage_rank ty_planning = 0"
| "stage_rank ty_reasoning = 1"
| "stage_rank ty_tool_call = 2"
| "stage_rank ty_tool_output = 3"
| "stage_rank ty_final_result = 4"
| "stage_rank ty_thinking = 5"
| "stage_rank _ = 6"

text \<open>\<^verbatim>\<open>_classify_message\<close>: the first event of the list, with a default for an empty list.\<close>

definition classify_message :: "pylib \<Rightarrow> clock \<Rightarrow> nat \<Rightarrow> raw_message \<Rightarrow> event \<times> nat" where
  "classify_message L clk t0 message =
     (let r = classify_message_multi L clk t0 message in
      case fst r of
        e # _ \<Rightarrow> (e, snd r)
      | [] \<Rightarrow> ((new_event ty_reasoning (clk (snd r)))
                 \<lparr> ev_content := Some (str_repr message),
                   ev_full_message := Some (str_repr message) \<rparr>, Suc (snd r)))"

section \<open>The Streaming Orchestrator (\<^verbatim>\<open>server/biomni_a1_orchestrator.py\<close>)\<close>

text \<open>
  The attributes of \<^verbatim>\<open>EventOrchestrator\<close> that its methods read or write. A dictionary is
  an association list in insertion order: \<open>AList.update\<close> replaces the value of a key in
  place or appends a new key, as Python does, and \<open>AList.delete\<close> removes a key.
\<close>

record EventOrchestrator =
  chunk_buffer :: "ustring list"
  last_event_type :: "event_type option"
  o_pending_tool_calls :: "(ustring \<times> bool) list"

text \<open>\<^verbatim>\<open>f"tool_{int(time.time()*1000)}"\<close>: \<^verbatim>\<open>int\<close> truncates towards zero.\<close>

definition py_str_int :: "int \<Rightarrow> ustring" where
  "py_str_int i = (if i < 0 then 45 # py_str_nat (nat (- i)) else py_str_nat (nat i))"

definition new_tool_id :: "real \<Rightarrow> ustring" where
  "new_tool_id now =
     asc ''tool_'' @ py_str_int (if now * 1000 \<ge> 0 then \<lfloor>now * 1000\<rfloor> else \<lceil>now * 1000\<rceil>)"

text \<open>
  \<^verbatim>\<open>re.search(r'(?i)(w1|w2|...)', s)\<close> as a truth value: some alternative matches at some
  position, character by character under the case-insensitive relation.
\<close>

fun iprefix :: "pylib \<Rightarrow> ustring \<Rightarrow> ustring \<Rightarrow> bool" where
  "iprefix L [] s = True"
| "iprefix L (p # ps) [] = False"
| "iprefix L (p # ps) (c # cs) = (re_ichar L p c \<and> iprefix L ps cs)"

fun isearch :: "pylib \<Rightarrow> ustring list \<Rightarrow> ustring \<Rightarrow> bool" where
  "isearch L words [] = list_ex (\<lambda>w. w = []) words"
| "isearch L words (c # cs) = (list_ex (\<lambda>w. iprefix L w (c # cs)) words \<or> isearch L words cs)"

text \<open>
  The tail \<^verbatim>\<open>\[([^\]]*)\]\s*(.+?)(?:\.|$)\<close> shared by the three patterns of
  \<^verbatim>\<open>extract_todos\<close>, matched at the start of \<open>s\<close>; the result is \<open>(group(1), group(2))\<close>.
  The first group runs to the first closing bracket. The white space behind it is taken
  greedily, and one character of it is given back only when nothing else is left for the
  second group, which is lazy: one character, then on to the first full stop or the end.
  The lines the source matches come from \<^verbatim>\<open>split('\n')\<close>, so they hold no newline.
\<close>

definition match_checkbox_task :: "ustring \<Rightarrow> (ustring \<times> ustring) option" where
  "match_checkbox_task s =
     (case s of
        b # r \<Rightarrow>
          (if b = 91 then
             (case dropWhile (\<lambda>c. c \<noteq> 93) r of
                e # r2 \<Rightarrow>
                  (case dropWhile is_space r2 of
                     c # cs \<Rightarrow> Some (takeWhile (\<lambda>c. c \<noteq> 93) r, c # takeWhile (\<lambda>d. d \<noteq> 46) cs)
                   | [] \<Rightarrow> (if r2 = [] then None
                            else Some (takeWhile (\<lambda>c. c \<noteq> 93) r, [last r2])))
              | [] \<Rightarrow> None)
           else None)
      | [] \<Rightarrow> None)"

text \<open>
  The three patterns in the order the source tries them: a numbered item, a bulleted item,
  a bare checkbox; each behind \<^verbatim>\<open>^\s*\<close>. No digit is white space or a full stop.
\<close>

definition match_todo_line :: "pylib \<Rightarrow> ustring \<Rightarrow> (ustring \<times> ustring) option" where
  "match_todo_line L line =
     (let s = dropWhile is_space line;
          numbered =
            (if takeWhile (re_digit L) s = [] then None
             else case dropWhile (re_digit L) s of
                    c # r \<Rightarrow> (if c = 46 then match_checkbox_task (dropWhile is_space r) else None)
                  | [] \<Rightarrow> None);
          bulleted =
            (case s of
               c # r \<Rightarrow> (if c \<in> set [45, 42, 43] then match_checkbox_task (dropWhile is_space r)
                         else None)
             | [] \<Rightarrow> None)
      in case numbered of
           Some m \<Rightarrow> Some m
         | None \<Rightarrow> (case bulleted of Some m \<Rightarrow> Some m | None \<Rightarrow> match_checkbox_task s))"

definition todo_status :: "ustring \<Rightarrow> status" where
  "todo_status checkbox =
     (if checkbox \<in> set [[10003], [10004], asc ''x'', asc ''X'', asc ''done''] then completed
      else if checkbox \<in> set [[10007], [10005], [10006], asc ''failed''] then failed
      else pending)"

fun todos_of_lines :: "pylib \<Rightarrow> ustring list \<Rightarrow> plan_step list" where
  "todos_of_lines L [] = []"
| "todos_of_lines L (line # lines) =
     (case match_todo_line L (py_strip line) of
        Some (checkbox, task) \<Rightarrow>
          \<lparr> step = py_strip task, status = todo_status (py_strip checkbox) \<rparr> # todos_of_lines L lines
      | None \<Rightarrow> todos_of_lines L lines)"

definition extract_todos :: "pylib \<Rightarrow> ustring \<Rightarrow> plan_step list" where
  "extract_todos L text = todos_of_lines L (split_nl text)"

definition ai_header :: ustring where
  "ai_header = replicate 34 61 @ asc '' Ai Message '' @ replicate 34 61"

text \<open>
  The content behind the header line: \<open>content_start\<close> is one past the first line that
  contains \<^verbatim>\<open>"Ai Message"\<close>, and 0 when no line does.
\<close>

definition ai_content_of :: "ustring \<Rightarrow> ustring" where
  "ai_content_of chunk =
     (let lines = split_nl chunk;
          content_start =
            (if list_ex (\<lambda>line. py_in (asc ''Ai Message'') line) lines
             then length (takeWhile (\<lambda>line. \<not> py_in (asc ''Ai Message'') line) lines) + 1
             else 0)
      in py_strip (join_nl (drop content_start lines)))"

text \<open>\<^verbatim>\<open>'\n'.join(lines[2:]) if len(lines) > 2 else ''\<close>\<close>

definition content_after_two_lines :: "ustring \<Rightarrow> ustring" where
  "content_after_two_lines chunk =
     (let lines = split_nl chunk in if length lines > 2 then join_nl (drop 2 lines) else [])"

definition protocol_keywords :: "ustring list" where
  "protocol_keywords =
     [asc ''step-by-step protocol:'', asc ''experimental protocol:'', asc ''cloning protocol:'',
      asc ''final protocol:'', asc ''here is the complete protocol'',
      asc (''here'' @ [CHR 0x27] @ ''s the step-by-step''), asc ''detailed experimental procedure:'']"

definition lab_keywords :: "ustring list" where
  "lab_keywords = [asc ''incubate'', asc ''ligate'', asc ''transform'', asc ''plate'',
                   asc ''digest'', asc ''pcr'', asc ''amplif'']"

definition reasoning_words :: "ustring list" where
  "reasoning_words = [asc ''thinking'', asc ''analyzing'', asc ''planning'', asc ''approach'',
                      asc ''need to'', asc ''will'', asc ''should'']"

definition observation_event :: "ustring \<Rightarrow> real \<Rightarrow> event" where
  "observation_event output ts =
     (new_event ty_observation ts)
       \<lparr> ev_content := Some output, ev_output := Some output, ev_priority := Some HIGH \<rparr>"

text \<open>The events of an AI message itself (Priority 0), before its content is parsed again.\<close>

definition ai_message_events :: "clock \<Rightarrow> ustring \<Rightarrow> event list \<times> nat \<Rightarrow> event list \<times> nat" where
  "ai_message_events clk ai_content acc =
     (if py_in (asc ''<observation>'') ai_content \<and> py_in (asc ''</observation>'') ai_content then
        (case re_search_tag (asc ''<observation>'') (asc ''</observation>'') ai_content of
           Some (start, body, stop) \<Rightarrow>
             (let acc1 = append_stamped clk (observation_event (py_strip body)) acc;
                  before = py_strip (take start ai_content);
                  after = py_strip (drop stop ai_content)
              in if before \<noteq> [] \<or> after \<noteq> [] then
                   (let remaining_content = py_strip (before @ [10] @ after) in
                    if remaining_content \<noteq> [] then
                      append_stamped clk (\<lambda>ts. (new_event ty_ai_message ts)
                        \<lparr> ev_content := Some remaining_content, ev_priority := Some NORMAL \<rparr>) acc1
                    else acc1)
                 else acc1)
         | None \<Rightarrow> acc)
      else append_stamped clk (\<lambda>ts. (new_event ty_ai_message ts)
             \<lparr> ev_content := Some ai_content, ev_priority := Some HIGH \<rparr>) acc)"

text \<open>
  The events in front of a tool call (Priority 2): a plan found in the text before the
  block, or else that text as reasoning when it names thinking, a plan or an approach.
\<close>

definition before_code_events :: "pylib \<Rightarrow> clock \<Rightarrow> ustring \<Rightarrow> event list \<times> nat \<Rightarrow> event list \<times> nat" where
  "before_code_events L clk before_code acc =
     (if before_code \<noteq> [] then
        (let todos = extract_todos L before_code in
         if todos \<noteq> [] then
           append_stamped clk (\<lambda>ts. (new_event ty_planning ts)\<lparr> ev_steps := Some todos \<rparr>) acc
         else if isearch L [asc ''thinking'', asc ''plan'', asc ''approach''] before_code then
           append_stamped clk (\<lambda>ts. (new_event ty_reasoning ts)\<lparr> ev_content := Some before_code \<rparr>) acc
         else acc)
      else acc)"

definition tool_call_event :: "ustring \<Rightarrow> ustring \<Rightarrow> real \<Rightarrow> event" where
  "tool_call_event tool_id code ts =
     (new_event ty_tool_call ts)
       \<lparr> ev_tool_id := Some tool_id, ev_tool_name := Some (asc ''execute_python''),
         ev_code := Some code, ev_language := Some (asc ''python''), ev_priority := Some HIGH \<rparr>"

text \<open>
  \<^verbatim>\<open>parse_chunk_with_llm\<close>. The state is the orchestrator and the number of clock readings;
  the result is the list of events with the new state. The rules stand in the order of the
  source, and a rule whose inner test fails falls through to the next one, as there.
\<close>

function parse_chunk_with_llm ::
    "pylib \<Rightarrow> clock \<Rightarrow> ustring \<Rightarrow> EventOrchestrator \<times> nat \<Rightarrow> event list \<times> EventOrchestrator \<times> nat" where
  "parse_chunk_with_llm L clk chunk0 st =
     (let chunk = py_strip chunk0 in
      if chunk = [] then ([], st)
      else if py_in ai_header chunk \<and> ai_content_of chunk \<noteq> [] then
        (let ai_content = ai_content_of chunk;
             acc = ai_message_events clk ai_content ([], snd st)
         in if py_in (asc ''<execute>'') ai_content then
              (let remaining = parse_chunk_with_llm L clk ai_content (fst st, snd acc)
               in (fst acc @ filter (\<lambda>evt. ev_type evt \<notin> set [ty_ai_message, ty_observation])
                                    (fst remaining),
                   snd remaining))
            else (fst acc, fst st, snd acc))
      else if py_in (asc ''<observation>'') chunk \<and> py_in (asc ''</observation>'') chunk
              \<and> re_search_tag (asc ''<observation>'') (asc ''</observation>'') chunk \<noteq> None then
        (case re_search_tag (asc ''<observation>'') (asc ''</observation>'') chunk of
           Some (start, body, stop) \<Rightarrow>
             (let acc = append_stamped clk (observation_event (py_strip body)) ([], snd st);
                  before = py_strip (take start chunk);
                  r1 = (if before \<noteq> [] then parse_chunk_with_llm L clk before (fst st, snd acc)
                        else ([], fst st, snd acc));
                  after = py_strip (drop stop chunk);
                  r2 = (if after \<noteq> [] then parse_chunk_with_llm L clk after (snd r1)
                        else ([], snd r1))
              in (fst acc @ fst r1 @ fst r2, snd r2))
         | None \<Rightarrow> ([], st))
      else if py_in (asc ''<execute>'') chunk \<and> py_in (asc ''</execute>'') chunk
              \<and> re_search_tag (asc ''<execute>'') (asc ''</execute>'') chunk \<noteq> None then
        (case re_search_tag (asc ''<execute>'') (asc ''</execute>'') chunk of
           Some (start, body, stop) \<Rightarrow>
             (let tool_id = new_tool_id (clk (snd st));
                  acc = before_code_events L clk (py_strip (take start chunk)) ([], Suc (snd st));
                  acc1 = append_stamped clk (tool_call_event tool_id (py_strip body)) acc;
                  self1 = (fst st)\<lparr> o_pending_tool_calls :=
                             AList.update tool_id True (o_pending_tool_calls (fst st)) \<rparr>;
                  after = py_strip (drop stop chunk);
                  r = (if after \<noteq> [] then parse_chunk_with_llm L clk after (self1, snd acc1)
                       else ([], self1, snd acc1))
              in (fst acc1 @ fst r, snd r))
         | None \<Rightarrow> ([], st))
      else if py_in (asc ''<solution>'') chunk \<and> py_in (asc ''</solution>'') chunk
              \<and> re_search_tag (asc ''<solution>'') (asc ''</solution>'') chunk \<noteq> None then
        (case re_search_tag (asc ''<solution>'') (asc ''</solution>'') chunk of
           Some (start, body, stop) \<Rightarrow>
             (let acc = append_stamped clk (\<lambda>ts. (new_event ty_final_answer ts)
                          \<lparr> ev_content := Some (py_strip body), ev_priority := Some HIGH \<rparr>)
                          ([], snd st)
              in (fst acc, fst st, snd acc))
         | None \<Rightarrow> ([], st))
      else if list_ex (\<lambda>pattern. py_in pattern (str_lower L chunk)) protocol_keywords
              \<and> length chunk > 300
              \<and> list_ex (\<lambda>word. py_in word (str_lower L chunk)) lab_keywords then
        (let acc = append_stamped clk (\<lambda>ts. (new_event ty_final_answer ts)
                     \<lparr> ev_content := Some chunk, ev_priority := Some HIGH \<rparr>) ([], snd st)
         in (fst acc, fst st, snd acc))
      else if extract_todos L chunk \<noteq> [] then
        (let acc = append_stamped clk (\<lambda>ts. (new_event ty_planning ts)
                     \<lparr> ev_steps := Some (extract_todos L chunk) \<rparr>) ([], snd st)
         in (fst acc, fst st, snd acc))
      else if py_in (asc ''Ai Message'') chunk then
        (let content = content_after_two_lines chunk in
         if py_strip content \<noteq> [] then
           (let acc = append_stamped clk (\<lambda>ts. (new_event ty_ai_message ts)
                        \<lparr> ev_content := Some content, ev_priority := Some HIGH \<rparr>) ([], snd st);
                todos = extract_todos L content;
                acc1 = (if todos \<noteq> [] then
                          append_stamped clk (\<lambda>ts. (new_event ty_planning ts)
                            \<lparr> ev_steps := Some todos \<rparr>) acc
                        else acc)
            in if py_in (asc ''<execute>'') content then
                 (let remaining = parse_chunk_with_llm L clk content (fst st, snd acc1)
                  in (fst acc1 @ filter (\<lambda>evt. ev_type evt \<noteq> ty_message) (fst remaining),
                      snd remaining))
               else (fst acc1, fst st, snd acc1))
         else ([], st))
      else if py_in (asc ''Human Message'') chunk then
        (let content = content_after_two_lines chunk in
         if py_strip content \<noteq> [] then
           (let acc = append_stamped clk (\<lambda>ts. (new_event ty_human_message ts)
                        \<lparr> ev_content := Some content \<rparr>) ([], snd st)
            in (fst acc, fst st, snd acc))
         else ([], st))
      else if isearch L reasoning_words chunk then
        (let acc = append_stamped clk (\<lambda>ts. (new_event ty_reasoning ts)
                     \<lparr> ev_content := Some chunk \<rparr>) ([], snd st)
         in (fst acc, fst st, snd acc))
      else if chunk \<noteq> [] \<and> \<not> prefix (asc ''='') chunk then
        (let acc = append_stamped clk (\<lambda>ts. (new_event ty_message ts)
                     \<lparr> ev_content := Some chunk \<rparr>) ([], snd st)
         in (fst acc, fst st, snd acc))
      else ([], st))"
  by pat_completeness auto

text \<open>
  \<^verbatim>\<open>process_chunk_stream\<close>: the events the generator yields, in order. An event of high
  priority is yielded at once; another one is yielded unless it repeats the type of the
  last such event, and then becomes the last one.
\<close>

fun yield_events :: "event list \<Rightarrow> event_type option \<Rightarrow> event list \<times> event_type option" where
  "yield_events [] last_type = ([], last_type)"
| "yield_events (e # es) last_type =
     (if ev_priority e = Some HIGH then
        (let r = yield_events es last_type in (e # fst r, snd r))
      else if Some (ev_type e) \<noteq> last_type \<or> ev_type e \<in> set [ty_tool_call, ty_tool_output, ty_planning] then
        (let r = yield_events es (Some (ev_type e)) in (e # fst r, snd r))
      else yield_events es last_type)"

definition process_chunk_stream ::
    "pylib \<Rightarrow> clock \<Rightarrow> ustring \<Rightarrow> EventOrchestrator \<times> nat \<Rightarrow> event list \<times> EventOrchestrator \<times> nat" where
  "process_chunk_stream L clk chunk st =
     (let self1 = (fst st)\<lparr> chunk_buffer := chunk_buffer (fst st) @ [chunk] \<rparr>;
          parsed = parse_chunk_with_llm L clk chunk (self1, snd st);
          yielded = yield_events (fst parsed) (last_event_type (fst (snd parsed)))
      in (fst yielded, (fst (snd parsed))\<lparr> last_event_type := snd yielded \<rparr>, snd (snd parsed)))"

text \<open>
  \<^verbatim>\<open>ensure_event_completion\<close>: a placeholder output for every pending tool call of the
  orchestrator whose entry is true, which is then removed.
\<close>

fun completion_loop ::
    "clock \<Rightarrow> ustring list \<Rightarrow> event list \<times> EventOrchestrator \<times> nat \<Rightarrow> event list \<times> EventOrchestrator \<times> nat" where
  "completion_loop clk [] acc = acc"
| "completion_loop clk (tool_id # keys) acc =
     (let self = fst (snd acc) in
      if map_of (o_pending_tool_calls self) tool_id = Some True then
        completion_loop clk keys
          (fst acc @ [(new_event ty_tool_output (clk (snd (snd acc))))
                        \<lparr> ev_tool_id := Some tool_id, ev_output := Some (asc ''Processing...''),
                          ev_placeholder := Some True \<rparr>],
           self\<lparr> o_pending_tool_calls := AList.delete tool_id (o_pending_tool_calls self) \<rparr>,
           Suc (snd (snd acc)))
      else completion_loop clk keys acc)"

definition ensure_event_completion ::
    "clock \<Rightarrow> EventOrchestrator \<times> nat \<Rightarrow> event list \<times> EventOrchestrator \<times> nat" where
  "ensure_event_completion clk st =
     completion_loop clk (map fst (o_pending_tool_calls (fst st))) ([], st)"

text \<open>
  \<^verbatim>\<open>SmartEventProcessor\<close>. \<open>event_history\<close> is a \<^verbatim>\<open>deque(maxlen=50)\<close>: appending to a full
  one drops the oldest entry.
\<close>

record SmartEventProcessor =
  orchestrator :: EventOrchestrator
  event_history :: "event list"
  last_sent_time :: real
  pending_tool_calls :: "(ustring \<times> real) list"
  tool_timeout :: real

definition deque_append :: "nat \<Rightarrow> 'a \<Rightarrow> 'a list \<Rightarrow> 'a list" where
  "deque_append maxlen x d = drop (length (d @ [x]) - maxlen) (d @ [x])"

definition init_processor :: "real \<Rightarrow> SmartEventProcessor" where
  "init_processor now =
     \<lparr> orchestrator = \<lparr> chunk_buffer = [], last_event_type = None, o_pending_tool_calls = [] \<rparr>,
       event_history = [], last_sent_time = now, pending_tool_calls = [], tool_timeout = 600 \<rparr>"

text \<open>
  The body of the loop of \<^verbatim>\<open>process_agent_output\<close> for one event. The default of
  \<^verbatim>\<open>event.get("tool_id", ...)\<close> is evaluated before the call, so a tool call reads the clock
  twice. The history holds the event object itself, so it shows the identifier the loop
  then writes into the event.
\<close>

definition track_event ::
    "clock \<Rightarrow> event \<Rightarrow> event list \<times> SmartEventProcessor \<times> nat \<Rightarrow> event list \<times> SmartEventProcessor \<times> nat" where
  "track_event clk event acc =
     (let self = fst (snd acc); t = snd (snd acc) in
      if ev_type event = ty_tool_call then
        (let tool_id = (case ev_tool_id event of Some i \<Rightarrow> i | None \<Rightarrow> new_tool_id (clk t));
             event1 = event\<lparr> ev_tool_id := Some tool_id \<rparr>;
             self1 = self\<lparr> event_history := deque_append 50 event1 (event_history self),
                           pending_tool_calls :=
                             AList.update tool_id (clk (Suc t)) (pending_tool_calls self),
                           last_sent_time := clk (Suc (Suc t)) \<rparr>
         in (fst acc @ [event1], self1, Suc (Suc (Suc t))))
      else if ev_type event \<in> set [ty_tool_output, ty_observation] then
        (let self1 = self\<lparr> event_history := deque_append 50 event (event_history self),
                           pending_tool_calls :=
                             (case ev_tool_id event of
                                Some i \<Rightarrow>
                                  (if i \<noteq> [] \<and> i \<in> set (map fst (pending_tool_calls self))
                                   then AList.delete i (pending_tool_calls self)
                                   else pending_tool_calls self)
                              | None \<Rightarrow> pending_tool_calls self),
                           last_sent_time := clk t \<rparr>
         in (fst acc @ [event], self1, Suc t))
      else
        (fst acc @ [event],
         self\<lparr> event_history := deque_append 50 event (event_history self),
               last_sent_time := clk t \<rparr>,
         Suc t))"

definition process_agent_output ::
    "pylib \<Rightarrow> clock \<Rightarrow> ustring \<Rightarrow> SmartEventProcessor \<times> nat \<Rightarrow> event list \<times> SmartEventProcessor \<times> nat" where
  "process_agent_output L clk text st =
     (if text = [] \<or> py_strip text = [] then ([], st)
      else
        (let streamed = process_chunk_stream L clk text (orchestrator (fst st), snd st);
             self1 = (fst st)\<lparr> orchestrator := fst (snd streamed) \<rparr>
         in foldl (\<lambda>acc event. track_event clk event acc) ([], self1, snd (snd streamed))
              (fst streamed)))"

definition timeout_event :: "ustring \<Rightarrow> real \<Rightarrow> event" where
  "timeout_event tool_id ts =
     (new_event ty_observation ts)
       \<lparr> ev_tool_id := Some tool_id,
         ev_content := Some ([9201, 65039] @ asc ('' Tool execution timed out after 30 seconds. '' @
            ''The operation is taking longer than expected. Continuing with alternative approach...'')),
         ev_output := Some (asc ''Tool execution timed out. Continuing...''),
         ev_timeout := Some True \<rparr>"

text \<open>
  The first loop of \<^verbatim>\<open>check_pending_events\<close>, over the snapshot
  \<^verbatim>\<open>list(self.pending_tool_calls.items())\<close> taken before it starts.
\<close>

fun timeout_loop ::
    "clock \<Rightarrow> real \<Rightarrow> (ustring \<times> real) list \<Rightarrow> event list \<times> SmartEventProcessor \<times> nat
       \<Rightarrow> event list \<times> SmartEventProcessor \<times> nat" where
  "timeout_loop clk current_time [] acc = acc"
| "timeout_loop clk current_time ((tool_id, sent_time) # items) acc =
     (let self = fst (snd acc) in
      if current_time - sent_time > tool_timeout self then
        (let ev = timeout_event tool_id (clk (snd (snd acc))) in
         timeout_loop clk current_time items
           (fst acc @ [ev],
            self\<lparr> event_history := deque_append 50 ev (event_history self),
                  pending_tool_calls := AList.delete tool_id (pending_tool_calls self) \<rparr>,
            Suc (snd (snd acc))))
      else timeout_loop clk current_time items acc)"

definition check_pending_events ::
    "clock \<Rightarrow> SmartEventProcessor \<times> nat \<Rightarrow> event list \<times> SmartEventProcessor \<times> nat" where
  "check_pending_events clk st =
     (let current_time = clk (snd st);
          timed_out = timeout_loop clk current_time (pending_tool_calls (fst st))
                        ([], fst st, Suc (snd st));
          self1 = fst (snd timed_out);
          t1 = snd (snd timed_out)
      in if clk t1 - last_sent_time self1 > 2 then
           (let completion = ensure_event_completion clk (orchestrator self1, Suc t1);
                self2 = self1\<lparr> orchestrator := fst (snd completion),
                               event_history := foldl (\<lambda>h e. deque_append 50 e h)
                                                  (event_history self1) (fst completion) \<rparr>
            in (fst timed_out @ fst completion, self2, snd (snd completion)))
         else (fst timed_out, self1, Suc t1))"

section \<open>Facts about the string operations\<close>

lemma find_sub_Some_D:
  "find_sub pat s = Some i \<Longrightarrow> i + length pat \<le> length s \<and> take (length pat) (drop i s) = pat"
proof (induction s arbitrary: i)
  case Nil
  then show ?case by (auto split: if_splits)
next
  case (Cons x xs)
  show ?case
  proof (cases "prefix pat (x # xs)")
    case True
    with Cons.prems have "i = 0" by simp
    with True prefix_length_le[OF True] show ?thesis by (auto simp: prefix_def)
  next
    case False
    with Cons.prems obtain j where j: "find_sub pat xs = Some j" "i = Suc j" by auto
    from Cons.IH[OF j(1)] j(2) show ?thesis by simp
  qed
qed

lemma py_in_iff_sublist: "py_in pat s \<longleftrightarrow> sublist pat s"
  unfolding py_in_def
proof (induction s)
  case Nil
  then show ?case by simp
next
  case (Cons x xs)
  then show ?case by (cases pat) (auto simp: sublist_Cons_right)
qed

lemma find_sub_append:
  "find_sub pat s = Some i \<Longrightarrow> find_sub pat (s @ t) = Some i"
proof (induction s arbitrary: i)
  case Nil
  then show ?case by (cases t) (auto split: if_splits)
next
  case (Cons x xs)
  show ?case
  proof (cases "prefix pat (x # xs)")
    case True
    then have "prefix pat ((x # xs) @ t)" by (rule prefix_prefix)
    with True Cons.prems show ?thesis by simp
  next
    case False
    with Cons.prems obtain j where j: "find_sub pat xs = Some j" "i = Suc j" by auto
    from find_sub_Some_D[OF j(1)] have len: "length pat \<le> length xs" by simp
    have "\<not> prefix pat ((x # xs) @ t)"
    proof
      assume "prefix pat ((x # xs) @ t)"
      then have "prefix pat (x # xs)" using len
        by (metis False prefix_append prefix_length_prefix  length_Cons le_SucI prefix_order.order_refl)
      with False show False ..
    qed
    with Cons.IH[OF j(1)] j(2) show ?thesis by simp
  qed
qed

lemma py_in_append_left: "py_in pat s \<Longrightarrow> py_in pat (s @ t)"
  by (auto simp: py_in_def dest: find_sub_append)

lemma py_in_append_self: "py_in pat (s @ pat)"
  by (simp add: py_in_iff_sublist)

lemma py_in_append_right: "py_in pat t \<Longrightarrow> py_in pat (s @ t)"
  by (simp add: py_in_iff_sublist sublist_append)

lemma re_search_tag_append:
  assumes "re_search_tag otag ctag s = Some m"
  shows "re_search_tag otag ctag (s @ t) = Some m"
proof -
  from assms obtain i j where i: "find_sub otag s = Some i"
    and j: "find_sub ctag (drop (i + length otag) s) = Some j"
    and m: "m = (i, take j (drop (i + length otag) s), i + length otag + j + length ctag)"
    by (auto simp: re_search_tag_def Let_def split: option.splits)
  from find_sub_Some_D[OF i] have li: "i + length otag \<le> length s" by simp
  from find_sub_Some_D[OF j] have lj: "j \<le> length (drop (i + length otag) s)" by simp
  have d: "drop (i + length otag) (s @ t) = drop (i + length otag) s @ t" using li by simp
  show ?thesis
    unfolding re_search_tag_def using find_sub_append[OF i, of t] find_sub_append[OF j, of t] lj m li
    by (simp add: Let_def)
qed

lemma re_search_tag_Some_D:
  assumes "re_search_tag otag ctag s = Some (i, body, e)"
  shows "s = take i s @ otag @ body @ ctag @ drop e s"
    and "e = i + length otag + length body + length ctag" and "e \<le> length s"
proof -
  from assms obtain j where i: "find_sub otag s = Some i"
    and j: "find_sub ctag (drop (i + length otag) s) = Some j"
    and b: "body = take j (drop (i + length otag) s)" and e: "e = i + length otag + j + length ctag"
    by (auto simp: re_search_tag_def Let_def split: option.splits)
  from find_sub_Some_D[OF i] have li: "i + length otag \<le> length s" "take (length otag) (drop i s) = otag" by simp_all
  from find_sub_Some_D[OF j] have lj: "j + length ctag \<le> length (drop (i + length otag) s)"
     "take (length ctag) (drop j (drop (i + length otag) s)) = ctag" by simp_all
  have lb: "length body = j" using b lj by simp
  show "e = i + length otag + length body + length ctag" using e lb by simp
  show el: "e \<le> length s" using e lj li by simp
  have 1: "drop i s = otag @ drop (i + length otag) s"
    using li(2) by (metis append_take_drop_id drop_drop add.commute)
  have 2: "drop (i + length otag) s = body @ drop j (drop (i + length otag) s)"
    using b by (metis append_take_drop_id)
  have 3: "drop j (drop (i + length otag) s) = ctag @ drop e s"
    using lj(2) e by (metis append_take_drop_id drop_drop add.commute add.assoc)
  show "s = take i s @ otag @ body @ ctag @ drop e s"
    by (metis 1 2 3 append_take_drop_id)
qed

lemma length_py_strip_le: "length (py_strip s) \<le> length s"
proof -
  have "length (py_strip s) \<le> length (dropWhile is_space s)"
    unfolding py_strip_def by (metis length_dropWhile_le length_rev)
  also have "\<dots> \<le> length s" by (rule length_dropWhile_le)
  finally show ?thesis .
qed

lemma split_nl_not_Nil: "split_nl s \<noteq> []"
  by (induction s) auto

lemma join_split_nl: "join_nl (split_nl s) = s"
proof (induction s)
  case Nil
  then show ?case by simp
next
  case (Cons c cs)
  obtain l ls where ls: "split_nl cs = l # ls" using split_nl_not_Nil[of cs] by (cases "split_nl cs") auto
  with Cons show ?case by (cases ls) auto
qed

lemma length_join_drop_le: "length (join_nl (drop k ls)) \<le> length (join_nl ls)"
proof (induction ls arbitrary: k)
  case Nil
  then show ?case by simp
next
  case (Cons l ls)
  show ?case
  proof (cases k)
    case 0
    then show ?thesis by simp
  next
    case (Suc k')
    have "length (join_nl (drop k' ls)) \<le> length (join_nl ls)" by (rule Cons.IH)
    also have "\<dots> \<le> length (join_nl (l # ls))" by (cases ls) auto
    finally show ?thesis using Suc by simp
  qed
qed

lemma length_join_drop_less:
  assumes "0 < k" "join_nl (drop k ls) \<noteq> []"
  shows "length (join_nl (drop k ls)) < length (join_nl ls)"
proof (cases ls)
  case Nil
  with assms show ?thesis by simp
next
  case (Cons l ls')
  from assms obtain k' where k: "k = Suc k'" by (cases k) auto
  have "ls' \<noteq> []" using assms(2) Cons k by auto
  then have "length (join_nl ls') < length (join_nl (l # ls'))" by (cases ls') auto
  moreover have "length (join_nl (drop k' ls')) \<le> length (join_nl ls')" by (rule length_join_drop_le)
  ultimately show ?thesis using Cons k by simp
qed

text \<open>A text without a newline that occurs in a joined text occurs in one of its lines.\<close>

lemma sublist_join_nl:
  assumes "10 \<notin> set h" "sublist h (join_nl ls)" "ls \<noteq> []"
  shows "\<exists>l\<in>set ls. sublist h l"
  using assms(2,3)
proof (induction ls rule: join_nl.induct)
  case 1
  then show ?case by simp
next
  case (2 l)
  then show ?case by simp
next
  case (3 l v va)
  from "3.prems"(1) have "sublist h (l @ (10 # join_nl (v # va)))" by simp
  then consider "sublist h l" | "sublist h (10 # join_nl (v # va))"
    | h1 h2 where "h = h1 @ h2" "suffix h1 l" "prefix h2 (10 # join_nl (v # va))"
    unfolding sublist_append by blast
  then show ?case
  proof cases
    case 1
    then show ?thesis by auto
  next
    case 2
    then have "prefix h (10 # join_nl (v # va)) \<or> sublist h (join_nl (v # va))"
      by (simp add: sublist_Cons_right)
    then show ?thesis
    proof
      assume "prefix h (10 # join_nl (v # va))"
      with assms(1) have "h = []" by (cases h) auto
      then show ?thesis by auto
    next
      assume "sublist h (join_nl (v # va))"
      with "3.IH" show ?thesis by auto
    qed
  next
    case 3
    from 3(3) assms(1) 3(1) have "h2 = []" by (cases h2) auto
    with 3(1,2) have "sublist h l" by (auto simp: suffix_imp_sublist)
    then show ?thesis by auto
  qed
qed

lemma Ai_Message_in_header: "sublist (asc ''Ai Message'') ai_header"
proof -
  have "ai_header = replicate 34 61 @ [32] @ asc ''Ai Message'' @ [32] @ replicate 34 61"
    by (simp add: ai_header_def asc_def)
  then show ?thesis unfolding sublist_def by (metis append.assoc)
qed

lemma ai_header_no_newline: "10 \<notin> set ai_header"
  by (auto simp: ai_header_def asc_def)

lemma ai_content_of_less:
  assumes "py_in ai_header x" "ai_content_of x \<noteq> []"
  shows "length (ai_content_of x) < length x"
proof -
  let ?P = "\<lambda>line. py_in (asc ''Ai Message'') line"
  let ?ls = "split_nl x"
  from assms(1) have "sublist ai_header (join_nl ?ls)"
    by (simp add: py_in_iff_sublist join_split_nl)
  from sublist_join_nl[OF ai_header_no_newline this split_nl_not_Nil]
  obtain l where l: "l \<in> set ?ls" "sublist ai_header l" by blast
  have "?P l" using l(2) Ai_Message_in_header
    by (auto simp: py_in_iff_sublist intro: sublist_order.order.trans)
  with l(1) have ex: "list_ex ?P ?ls" by (auto simp: list_ex_iff)
  define k where "k = length (takeWhile (\<lambda>line. \<not> ?P line) ?ls) + 1"
  have ac: "ai_content_of x = py_strip (join_nl (drop k ?ls))"
    using ex by (simp add: ai_content_of_def k_def Let_def)
  with assms(2) have ne: "join_nl (drop k ?ls) \<noteq> []" by (auto simp: py_strip_def)
  have "0 < k" by (simp add: k_def)
  from length_join_drop_less[OF this ne] have "length (join_nl (drop k ?ls)) < length x"
    by (simp add: join_split_nl)
  with length_py_strip_le[of "join_nl (drop k ?ls)"] ac show ?thesis by simp
qed

lemma tag_before_less:
  assumes "re_search_tag otag ctag x = Some (i, b, e)" "otag \<noteq> []"
  shows "length (py_strip (take i x)) < length x"
proof -
  from re_search_tag_Some_D(2,3)[OF assms(1)] assms(2) have "i < length x" by (cases otag) auto
  with length_py_strip_le[of "take i x"] show ?thesis by simp
qed

lemma tag_after_less:
  assumes "re_search_tag otag ctag x = Some (i, b, e)" "otag \<noteq> []"
  shows "length (py_strip (drop e x)) < length x"
proof -
  from re_search_tag_Some_D(2,3)[OF assms(1)] assms(2) have "0 < e" "e \<le> length x" by (cases otag; auto)+
  with length_py_strip_le[of "drop e x"] show ?thesis by simp
qed

lemma content_after_two_lines_less:
  assumes "content_after_two_lines x \<noteq> []"
  shows "length (content_after_two_lines x) < length x"
proof -
  from assms have c: "content_after_two_lines x = join_nl (drop 2 (split_nl x))"
    by (auto simp: content_after_two_lines_def Let_def split: if_splits)
  with assms have "join_nl (drop 2 (split_nl x)) \<noteq> []" by simp
  from length_join_drop_less[OF _ this] c show ?thesis by (simp add: join_split_nl)
qed

lemma asc_tags_not_Nil [simp]:
  "asc ''<observation>'' \<noteq> []" "asc ''<execute>'' \<noteq> []" "asc ''<solution>'' \<noteq> []"
  by (simp_all add: asc_def)

subsection \<open>\<^verbatim>\<open>parse_chunk_with_llm\<close> terminates\<close>

text \<open>Every recursive call is on a text strictly shorter than the chunk.\<close>

termination parse_chunk_with_llm
proof (relation "measure (\<lambda>(L, clk, chunk, st). length chunk)", goal_cases)
  case 1
  show ?case by simp
next
  case (2 L clk chunk0 st x xa xb)
  then show ?case
    using ai_content_of_less[of x] length_py_strip_le[of chunk0] by auto
next
  case (3 L clk chunk0 st x x2 xa y xb ya xc xba)
  then show ?case
    using tag_before_less[of "asc ''<observation>''" "asc ''</observation>''" x xa xb ya]
      length_py_strip_le[of chunk0] by auto
next
  case (4 L clk chunk0 st x x2 xa y xb ya xc xba xaa xab)
  then show ?case
    using tag_after_less[of "asc ''<observation>''" "asc ''</observation>''" x xa xb ya]
      length_py_strip_le[of chunk0] by auto
next
  case (5 L clk chunk0 st x x2 xa y xb ya xc xd xaa xab xac)
  then show ?case
    using tag_after_less[of "asc ''<execute>''" "asc ''</execute>''" x xa xb ya]
      length_py_strip_le[of chunk0] by auto
next
  case (6 L clk chunk0 st x xa xb xc xd)
  then have "xa \<noteq> []" by (auto simp: py_strip_def)
  with 6 show ?case
    using content_after_two_lines_less[of x] length_py_strip_le[of chunk0] by auto
qed

declare parse_chunk_with_llm.simps [simp del]


section \<open>The Controller: routing of a parsed reply\<close>

lemmas eval_string = asc_def py_in_def py_strip_def is_space_def

lemma re_search_tag_closed:
  assumes "py_in otag s"
  shows "re_search_tag otag ctag (s @ x @ ctag @ y) \<noteq> None"
proof -
  from assms obtain i where i: "find_sub otag s = Some i" by (auto simp: py_in_def)
  from find_sub_Some_D[OF i] have li: "i + length otag \<le> length s" by simp
  have "py_in ctag (drop (i + length otag) s @ x @ ctag @ y)"
    unfolding py_in_iff_sublist sublist_def by (metis append.assoc)
  then show ?thesis
    using find_sub_append[OF i, of "x @ ctag @ y"] li
    by (auto simp: re_search_tag_def py_in_def Let_def)
qed

lemma re_search_tag_None: "\<not> py_in otag s \<Longrightarrow> re_search_tag otag ctag s = None"
  by (simp add: re_search_tag_def py_in_def)

lemma re_search_tag_imp_in: "re_search_tag otag ctag s \<noteq> None \<Longrightarrow> py_in otag s"
  by (auto simp: re_search_tag_def py_in_def split: option.splits)

lemma error_count_simps [simp]:
  "error_count [] = 0"
  "error_count (HumanMessage c # ms) = error_count ms"
  "error_count (SystemMessage c # ms) = error_count ms"
  "error_count (AIMessage c # ms) = (if py_in (asc ''There are no tags'') c then 1 else 0) + error_count ms"
  "error_count (ms @ ms') = error_count ms + error_count ms'"
  by (simp_all add: error_count_def)

lemma fix_incomplete_tags_untagged:
  "\<not> py_in (asc ''<execute>'') r \<Longrightarrow> \<not> py_in (asc ''<solution>'') r \<Longrightarrow> \<not> py_in (asc ''<think>'') r
   \<Longrightarrow> fix_incomplete_tags r = r"
  by (simp add: fix_incomplete_tags_def)

lemma parse_response_untagged:
  assumes "\<not> py_in (asc ''<execute>'') r" "\<not> py_in (asc ''<solution>'') r" "\<not> py_in (asc ''<think>'') r"
    and "\<not> py_in (asc ''There are no tags'') (py_strip r)" and "error_count (messages st) < 2"
  shows "parse_response r st =
           st\<lparr>messages := messages st @ [AIMessage (py_strip r), HumanMessage no_tags_instruction],
              next_step := Some Generate\<rparr>"
    and "error_count (messages (parse_response r st)) = error_count (messages st)"
  using assms
  by (simp_all add: parse_response_def fix_incomplete_tags_untagged re_search_tag_None Let_def)

text \<open>
  C1 (the code departs from the claim). The claim: every reply without a recognised tag is
  answered by one corrective instruction, and after two such replies in a row the Controller
  goes to the end state with a notice of termination. The source counts, for that, the AI
  messages that contain "There are no tags"; the instruction it appends is a human message
  and spells the phrase in lower case, so the count does not see it. Here the model answers
  "hello" and then "hello again" to the prompt "hi": after the second untagged reply the next
  step is still \<open>Generate\<close> and no notice of termination is appended.
\<close>

theorem generate_untagged_replies_keep_generating:
  "generate ascii_lib [] (\<lambda>k ms. Reply (asc ''hello''))
     \<lparr>messages = [HumanMessage (asc ''hi'')], next_step = None\<rparr>
   = Inr (\<lparr>messages = [HumanMessage (asc ''hi''), AIMessage (asc ''hello''),
                       HumanMessage no_tags_instruction],
           next_step = Some Generate\<rparr>,
          [[SystemMessage [], HumanMessage (asc ''hi'')]])
   \<and> generate ascii_lib [] (\<lambda>k ms. Reply (asc ''hello again''))
     \<lparr>messages = [HumanMessage (asc ''hi''), AIMessage (asc ''hello''),
                  HumanMessage no_tags_instruction],
      next_step = Some Generate\<rparr>
   = Inr (\<lparr>messages = [HumanMessage (asc ''hi''), AIMessage (asc ''hello''),
                       HumanMessage no_tags_instruction, AIMessage (asc ''hello again''),
                       HumanMessage no_tags_instruction],
           next_step = Some Generate\<rparr>,
          [[SystemMessage [], HumanMessage (asc ''hi''), AIMessage (asc ''hello''),
            HumanMessage no_tags_instruction]])"
  by (simp add: generate_def parse_response_def fix_incomplete_tags_def re_search_tag_def
        error_count_def eval_string Let_def)

text \<open>
  C2, as stated: a reply with a complete execute block and a complete solution block is
  routed to execute. The source tests the solution first; this reply is routed to the end.
\<close>

theorem generate_execute_and_solution_counterexample:
  "generate ascii_lib [] (\<lambda>k ms. Reply (asc ''<execute>print(1)</execute><solution>1</solution>''))
     \<lparr>messages = [HumanMessage (asc ''hi'')], next_step = None\<rparr>
   = Inr (\<lparr>messages = [HumanMessage (asc ''hi''),
                       AIMessage (asc ''<execute>print(1)</execute><solution>1</solution>'')],
           next_step = Some End\<rparr>,
          [[SystemMessage [], HumanMessage (asc ''hi'')]])"
  by (simp add: generate_def parse_response_def fix_incomplete_tags_def re_search_tag_def
        eval_string Let_def)

lemma fix_incomplete_tags_extends: "\<exists>t. fix_incomplete_tags r = r @ t"
  by (auto simp: fix_incomplete_tags_def Let_def)

lemma re_search_tag_fix:
  assumes "re_search_tag otag ctag r \<noteq> None"
  shows "re_search_tag otag ctag (fix_incomplete_tags r) \<noteq> None"
proof -
  obtain t where t: "fix_incomplete_tags r = r @ t" using fix_incomplete_tags_extends by blast
  from assms obtain m where "re_search_tag otag ctag r = Some m" by auto
  from re_search_tag_append[OF this, of t] t show ?thesis by simp
qed

text \<open>
  C2, amended: when the model call succeeds with a reply that holds a complete execute block
  and a complete solution block, \<^verbatim>\<open>generate\<close> appends the reply and routes to the end: the
  solution is preferred over the execute block.
\<close>

theorem generate_solution_before_execute:
  assumes "llm 0 (SystemMessage system_prompt # messages state) = Reply r"
    and "re_search_tag (asc ''<execute>'') (asc ''</execute>'') r \<noteq> None"
    and "re_search_tag (asc ''<solution>'') (asc ''</solution>'') r \<noteq> None"
  shows "generate L system_prompt llm state =
           Inr (state\<lparr>messages := messages state @ [AIMessage (py_strip (fix_incomplete_tags r))],
                      next_step := Some End\<rparr>,
                [SystemMessage system_prompt # messages state])"
  using assms(1) re_search_tag_fix[OF assms(3)]
  by (simp add: generate_def parse_response_def Let_def)

theorem generate_solution_before_execute_witness:
  "(\<lambda>k ms. Reply (asc ''<execute>a</execute> <solution>b</solution>'')) 0
      (SystemMessage [] # messages \<lparr>messages = [], next_step = None\<rparr>)
     = Reply (asc ''<execute>a</execute> <solution>b</solution>'')
   \<and> re_search_tag (asc ''<execute>'') (asc ''</execute>'') (asc ''<execute>a</execute> <solution>b</solution>'') \<noteq> None
   \<and> re_search_tag (asc ''<solution>'') (asc ''</solution>'') (asc ''<execute>a</execute> <solution>b</solution>'') \<noteq> None
   \<and> generate ascii_lib [] (\<lambda>k ms. Reply (asc ''<execute>a</execute> <solution>b</solution>''))
        \<lparr>messages = [], next_step = None\<rparr>
      = Inr (\<lparr>messages = [AIMessage (asc ''<execute>a</execute> <solution>b</solution>'')],
              next_step = Some End\<rparr>, [[SystemMessage []]])"
proof -
  let ?r = "asc ''<execute>a</execute> <solution>b</solution>''"
  have e: "re_search_tag (asc ''<execute>'') (asc ''</execute>'') ?r \<noteq> None"
    by (simp add: re_search_tag_def eval_string)
  have s: "re_search_tag (asc ''<solution>'') (asc ''</solution>'') ?r \<noteq> None"
    by (simp add: re_search_tag_def eval_string)
  have f: "py_strip (fix_incomplete_tags ?r) = ?r"
    by (simp add: fix_incomplete_tags_def eval_string)
  from generate_solution_before_execute[of "\<lambda>k ms. Reply ?r" "[]" "\<lparr>messages = [], next_step = None\<rparr>" ?r ascii_lib, OF refl e s]
  show ?thesis using e s f by simp
qed


section \<open>The Controller: unterminated tags\<close>

text \<open>
  Appending a closing tag makes an occurrence of another tag only where a proper, non-empty
  end of that tag starts the appended one.
\<close>

lemma py_in_append_no_cross:
  assumes "\<not> py_in p t" and "\<forall>x\<in>set (suffixes p). x \<noteq> [] \<longrightarrow> \<not> prefix x t"
  shows "py_in p (s @ t) \<longleftrightarrow> py_in p s"
proof
  assume "py_in p (s @ t)"
  then consider "sublist p s" | "sublist p t"
    | xs1 xs2 where "p = xs1 @ xs2" "suffix xs1 s" "prefix xs2 t"
    unfolding py_in_iff_sublist sublist_append by blast
  then show "py_in p s"
  proof cases
    case 1
    then show ?thesis by (simp add: py_in_iff_sublist)
  next
    case 2
    with assms(1) show ?thesis by (simp add: py_in_iff_sublist)
  next
    case 3
    show ?thesis
    proof (cases "xs2 = []")
      case True
      with 3 show ?thesis by (auto simp: py_in_iff_sublist suffix_imp_sublist)
    next
      case False
      have "xs2 \<in> set (suffixes p)" using 3(1) by (auto simp: in_set_suffixes suffix_def)
      with assms(2) False 3(3) show ?thesis by blast
    qed
  qed
next
  assume "py_in p s"
  then show "py_in p (s @ t)" by (rule py_in_append_left)
qed

lemma execute_not_across_solution_end:
  "py_in (asc ''<execute>'') (m @ asc ''</solution>'') \<longleftrightarrow> py_in (asc ''<execute>'') m"
  by (rule py_in_append_no_cross) (simp_all add: eval_string)

lemma solution_end_not_across_execute_end:
  "py_in (asc ''</solution>'') (m @ asc ''</execute>'') \<longleftrightarrow> py_in (asc ''</solution>'') m"
  by (rule py_in_append_no_cross) (simp_all add: eval_string)

lemma fix_incomplete_tags_execute:
  assumes "py_in (asc ''<execute>'') m" "\<not> py_in (asc ''</execute>'') m"
  shows "fix_incomplete_tags m = fix_incomplete_tags (m @ asc ''</execute>'')"
  using assms py_in_append_left[OF assms(1), of "asc ''</execute>''"]
    py_in_append_self[of "asc ''</execute>''" m]
  by (simp add: fix_incomplete_tags_def)

lemma fix_incomplete_tags_solution:
  assumes "py_in (asc ''<solution>'') m" "\<not> py_in (asc ''</solution>'') m"
    and "\<not> (py_in (asc ''<execute>'') m \<and> \<not> py_in (asc ''</execute>'') m)"
  shows "fix_incomplete_tags m = fix_incomplete_tags (m @ asc ''</solution>'')"
proof -
  have 1: "\<not> (py_in (asc ''<execute>'') (m @ asc ''</solution>'')
             \<and> \<not> py_in (asc ''</execute>'') (m @ asc ''</solution>''))"
    using assms(3) py_in_append_left[of "asc ''</execute>''" m "asc ''</solution>''"]
    by (auto simp: execute_not_across_solution_end)
  let ?cs = "asc ''</solution>''" and ?ce = "asc ''</execute>''"
  have a: "(if py_in (asc ''<execute>'') m \<and> \<not> py_in ?ce m then m @ ?ce else m) = m"
    by (rule if_not_P) (rule assms(3))
  have b: "(if py_in (asc ''<execute>'') (m @ ?cs) \<and> \<not> py_in ?ce (m @ ?cs)
            then (m @ ?cs) @ ?ce else m @ ?cs) = m @ ?cs"
    by (rule if_not_P) (rule 1)
  have c: "(if py_in (asc ''<solution>'') m \<and> \<not> py_in ?cs m then m @ ?cs else m) = m @ ?cs"
    using assms(1,2) by simp
  have d: "(if py_in (asc ''<solution>'') (m @ ?cs) \<and> \<not> py_in ?cs (m @ ?cs)
            then (m @ ?cs) @ ?cs else m @ ?cs) = m @ ?cs"
    using py_in_append_self[of ?cs m] by simp
  show ?thesis
    by (simp only: fix_incomplete_tags_def Let_def a b c d)
qed

lemma fix_incomplete_tags_closes_solution:
  assumes "py_in (asc ''<solution>'') m" "\<not> py_in (asc ''</solution>'') m"
  shows "\<exists>x y. fix_incomplete_tags m = m @ x @ asc ''</solution>'' @ y"
    and "\<exists>x y. fix_incomplete_tags (m @ asc ''</solution>'') = m @ x @ asc ''</solution>'' @ y"
proof -
  let ?cs = "asc ''</solution>''" and ?ce = "asc ''</execute>''"
  define m1 where "m1 = (if py_in (asc ''<execute>'') m \<and> \<not> py_in ?ce m then m @ ?ce else m)"
  have a: "py_in (asc ''<solution>'') m1" "\<not> py_in ?cs m1"
    using assms by (auto simp: m1_def solution_end_not_across_execute_end intro: py_in_append_left)
  have "\<exists>y. fix_incomplete_tags m = m1 @ ?cs @ y"
    using a by (auto simp: fix_incomplete_tags_def m1_def[symmetric] Let_def)
  moreover have "\<exists>x. m1 = m @ x" by (auto simp: m1_def)
  ultimately show "\<exists>x y. fix_incomplete_tags m = m @ x @ ?cs @ y"
    by (metis append.assoc)
  define n1 where "n1 = (if py_in (asc ''<execute>'') (m @ ?cs) \<and> \<not> py_in ?ce (m @ ?cs)
                         then (m @ ?cs) @ ?ce else m @ ?cs)"
  have b: "py_in ?cs n1"
    using py_in_append_self[of ?cs m] py_in_append_left[of ?cs "m @ ?cs" ?ce]
    by (auto simp: n1_def)
  have "\<exists>y. fix_incomplete_tags (m @ ?cs) = n1 @ y"
    using b by (auto simp: fix_incomplete_tags_def n1_def[symmetric] Let_def)
  moreover have "\<exists>x. n1 = m @ ?cs @ x" by (auto simp: n1_def)
  ultimately show "\<exists>x y. fix_incomplete_tags (m @ ?cs) = m @ x @ ?cs @ y"
    by (metis append.assoc append_Nil)
qed

lemma parse_response_solution_End:
  "re_search_tag (asc ''<solution>'') (asc ''</solution>'') (fix_incomplete_tags r) \<noteq> None
   \<Longrightarrow> next_step (parse_response r st) = Some End"
  by (simp add: parse_response_def Let_def)

lemma execute_unterminated:
  assumes "py_in (asc ''<execute>'') m" "\<not> py_in (asc ''</execute>'') m"
  shows "\<exists>obs. execute run (st\<lparr>messages := ms @ [AIMessage m]\<rparr>)
                 = Inr (st\<lparr>messages := ms @ [AIMessage m, obs]\<rparr>)
             \<and> execute run (st\<lparr>messages := ms @ [AIMessage (m @ asc ''</execute>'')]\<rparr>)
                 = Inr (st\<lparr>messages := ms @ [AIMessage (m @ asc ''</execute>''), obs]\<rparr>)"
proof -
  let ?ce = "asc ''</execute>''"
  from re_search_tag_closed[OF assms(1), of ?ce "[]" "[]"]
  obtain i code e where c: "re_search_tag (asc ''<execute>'') ?ce (m @ ?ce) = Some (i, code, e)"
    by auto
  show ?thesis
    using assms c py_in_append_left[OF assms(1), of ?ce] py_in_append_self[of ?ce m]
    by (intro exI[of _ "AIMessage (py_strip ([10] @ asc ''<observation>''
          @ handle_long_output (run_code run code) @ asc ''</observation>''))"])
       (simp add: execute_def Let_def)
qed

text \<open>
  A closing tag that stands only before the opening tag counts as present: none is
  synthesised, the pattern finds no block, and the reply is treated as untagged.
\<close>

lemma stray_closing_tag_not_closed:
  "parse_response (asc ''</execute><execute>x'') \<lparr>messages = [], next_step = None\<rparr>
     = \<lparr>messages = [AIMessage (asc ''</execute><execute>x''), HumanMessage no_tags_instruction],
        next_step = Some Generate\<rparr>"
  by (simp add: parse_response_def fix_incomplete_tags_def re_search_tag_def
        eval_string Let_def)

text \<open>
  C5, as stated: a text with an opening execute or solution tag and no closing tag for it
  is parsed and routed with the same result as the text with that closing tag appended. A
  reply with both tags open has an open solution tag; the source closes the execute tag
  first, so the message it stores differs from the one it stores for the reply that already
  ends with the closing solution tag.
\<close>

theorem generate_unterminated_counterexample:
  "generate ascii_lib [] (\<lambda>k ms. Reply (asc ''<execute>a<solution>b''))
       \<lparr>messages = [], next_step = None\<rparr>
     = Inr (\<lparr>messages = [AIMessage (asc ''<execute>a<solution>b</execute></solution>'')],
             next_step = Some End\<rparr>, [[SystemMessage []]])
   \<and> generate ascii_lib [] (\<lambda>k ms. Reply (asc ''<execute>a<solution>b'' @ asc ''</solution>''))
       \<lparr>messages = [], next_step = None\<rparr>
     = Inr (\<lparr>messages = [AIMessage (asc ''<execute>a<solution>b</solution></execute>'')],
             next_step = Some End\<rparr>, [[SystemMessage []]])"
  by (simp add: generate_def parse_response_def fix_incomplete_tags_def re_search_tag_def
        eval_string Let_def)

text \<open>
  C5, amended. For a text that contains the opening execute tag and nowhere the closing
  one, \<^verbatim>\<open>generate\<close> parses and routes, and \<^verbatim>\<open>execute\<close> appends the same observation, exactly as
  for the text with the closing execute tag appended. For a text that contains the opening
  solution tag and nowhere the closing one, \<^verbatim>\<open>generate\<close> routes to the end, as it does for
  the text with the closing solution tag appended, and unless the execute tag is open too
  the whole result is the same. The functions are total: no input makes the parse raise.
\<close>

theorem unterminated_tag_as_if_closed:
  "(py_in (asc ''<execute>'') m \<and> \<not> py_in (asc ''</execute>'') m \<longrightarrow>
      parse_response m st = parse_response (m @ asc ''</execute>'') st
      \<and> (\<exists>obs. execute run (st\<lparr>messages := ms @ [AIMessage m]\<rparr>)
                   = Inr (st\<lparr>messages := ms @ [AIMessage m, obs]\<rparr>)
               \<and> execute run (st\<lparr>messages := ms @ [AIMessage (m @ asc ''</execute>'')]\<rparr>)
                   = Inr (st\<lparr>messages := ms @ [AIMessage (m @ asc ''</execute>''), obs]\<rparr>)))
   \<and> (py_in (asc ''<solution>'') m \<and> \<not> py_in (asc ''</solution>'') m \<longrightarrow>
      next_step (parse_response m st) = Some End
      \<and> next_step (parse_response (m @ asc ''</solution>'') st) = Some End
      \<and> (\<not> (py_in (asc ''<execute>'') m \<and> \<not> py_in (asc ''</execute>'') m) \<longrightarrow>
           parse_response m st = parse_response (m @ asc ''</solution>'') st))"
proof (intro conjI impI)
  assume a: "py_in (asc ''<execute>'') m \<and> \<not> py_in (asc ''</execute>'') m"
  then show "parse_response m st = parse_response (m @ asc ''</execute>'') st"
    using fix_incomplete_tags_execute[of m] by (simp add: parse_response_def)
  from a show "\<exists>obs. execute run (st\<lparr>messages := ms @ [AIMessage m]\<rparr>)
                   = Inr (st\<lparr>messages := ms @ [AIMessage m, obs]\<rparr>)
               \<and> execute run (st\<lparr>messages := ms @ [AIMessage (m @ asc ''</execute>'')]\<rparr>)
                   = Inr (st\<lparr>messages := ms @ [AIMessage (m @ asc ''</execute>''), obs]\<rparr>)"
    using execute_unterminated by blast
next
  assume a: "py_in (asc ''<solution>'') m \<and> \<not> py_in (asc ''</solution>'') m"
  from fix_incomplete_tags_closes_solution(1)[of m] a
  obtain x y where "fix_incomplete_tags m = m @ x @ asc ''</solution>'' @ y" by blast
  with re_search_tag_closed[of "asc ''<solution>''" m "asc ''</solution>''" x y] a
  show "next_step (parse_response m st) = Some End"
    by (simp add: parse_response_solution_End)
  from fix_incomplete_tags_closes_solution(2)[of m] a
  obtain x y where "fix_incomplete_tags (m @ asc ''</solution>'') = m @ x @ asc ''</solution>'' @ y"
    by blast
  with re_search_tag_closed[of "asc ''<solution>''" m "asc ''</solution>''" x y] a
  show "next_step (parse_response (m @ asc ''</solution>'') st) = Some End"
    by (simp add: parse_response_solution_End)
  assume "\<not> (py_in (asc ''<execute>'') m \<and> \<not> py_in (asc ''</execute>'') m)"
  with a show "parse_response m st = parse_response (m @ asc ''</solution>'') st"
    using fix_incomplete_tags_solution[of m] by (simp add: parse_response_def)
qed

theorem unterminated_tag_as_if_closed_witness:
  "py_in (asc ''<execute>'') (asc ''<execute>print(1)'')
   \<and> \<not> py_in (asc ''</execute>'') (asc ''<execute>print(1)'')
   \<and> parse_response (asc ''<execute>print(1)'') \<lparr>messages = [], next_step = None\<rparr>
       = parse_response (asc ''<execute>print(1)'' @ asc ''</execute>'') \<lparr>messages = [], next_step = None\<rparr>
   \<and> parse_response (asc ''<execute>print(1)'') \<lparr>messages = [], next_step = None\<rparr>
       = \<lparr>messages = [AIMessage (asc ''<execute>print(1)</execute>'')], next_step = Some Execute\<rparr>
   \<and> py_in (asc ''<solution>'') (asc ''<solution>4'')
   \<and> \<not> py_in (asc ''</solution>'') (asc ''<solution>4'')
   \<and> \<not> py_in (asc ''<execute>'') (asc ''<solution>4'')
   \<and> parse_response (asc ''<solution>4'') \<lparr>messages = [], next_step = None\<rparr>
       = parse_response (asc ''<solution>4'' @ asc ''</solution>'') \<lparr>messages = [], next_step = None\<rparr>
   \<and> next_step (parse_response (asc ''<solution>4'') \<lparr>messages = [], next_step = None\<rparr>) = Some End"
proof -
  have 1: "py_in (asc ''<execute>'') (asc ''<execute>print(1)'')
           \<and> \<not> py_in (asc ''</execute>'') (asc ''<execute>print(1)'')"
    by (simp add: eval_string)
  have 2: "py_in (asc ''<solution>'') (asc ''<solution>4'')
           \<and> \<not> py_in (asc ''</solution>'') (asc ''<solution>4'')"
    by (simp add: eval_string)
  have 3: "\<not> py_in (asc ''<execute>'') (asc ''<solution>4'')"
    by (simp add: eval_string)
  have 4: "parse_response (asc ''<execute>print(1)'') \<lparr>messages = [], next_step = None\<rparr>
       = \<lparr>messages = [AIMessage (asc ''<execute>print(1)</execute>'')], next_step = Some Execute\<rparr>"
    by (simp add: parse_response_def fix_incomplete_tags_def re_search_tag_def eval_string Let_def)
  show ?thesis
    using 1 2 3 4
      unterminated_tag_as_if_closed[of "asc ''<execute>print(1)''" "\<lparr>messages = [], next_step = None\<rparr>" "\<lambda>b c. []" "[]"]
      unterminated_tag_as_if_closed[of "asc ''<solution>4''" "\<lparr>messages = [], next_step = None\<rparr>" "\<lambda>b c. []" "[]"]
    by blast
qed


section \<open>The Action Executor step: the size of an observation\<close>

lemma decimal_value_snoc: "decimal_value (ds @ [d]) = 10 * decimal_value ds + (d - 48)"
  by (simp add: decimal_value_def)

lemma decimal_value_py_str_nat: "decimal_value (py_str_nat n) = n"
proof (induction n rule: py_str_nat.induct)
  case (1 n)
  show ?case
  proof (cases "n < 10")
    case True
    then show ?thesis by (subst py_str_nat.simps) (simp add: decimal_value_def)
  next
    case False
    with 1 show ?thesis by (subst py_str_nat.simps) (simp add: decimal_value_snoc)
  qed
qed

lemma py_in_singleton: "py_in [c] s \<longleftrightarrow> c \<in> set s"
  unfolding py_in_def by (induction s) auto

lemma py_strip_observation:
  "py_strip ([10] @ asc ''<observation>'' @ r @ asc ''</observation>'')
     = asc ''<observation>'' @ r @ asc ''</observation>''"
  by (simp add: py_strip_def asc_def is_space_def)

lemma split_nl_no_newline: "10 \<notin> set s \<Longrightarrow> split_nl s = [s]"
  by (induction s) auto

lemma split_nl_append_newline: "10 \<notin> set a \<Longrightarrow> split_nl (a @ 10 # b) = a # split_nl b"
  by (induction a) auto

text \<open>
  C4. Let \<open>r\<close> be the text the backend returns for the code of the last message. Above
  10,000 characters the observation holds the first 10,000 characters of \<open>r\<close> behind a
  header that states the length of \<open>r\<close> (and, when a \<^verbatim>\<open>>\<close> stands among the first 1,000
  characters, the number of lines that start with one); above 5,000 and up to 10,000
  characters it is \<open>r\<close> behind a note of its length; otherwise it is \<open>r\<close>. The number the
  header prints is the length of \<open>r\<close>. \<^verbatim>\<open>execute\<close> appends that text between the observation
  tags as an AI message.
\<close>

theorem execute_output_size_policy:
  "(length r > 10000 \<and> \<not> py_in (asc ''>'') (take 1000 r) \<longrightarrow>
      handle_long_output r =
        asc ''[OUTPUT TRUNCATED: '' @ py_str_nat (length r) @ asc '' total characters]'' @ [10]
        @ asc ''[First 10K characters shown below]'' @ [10]
        @ replicate 50 61 @ [10] @ take 10000 r)
   \<and> (length r > 10000 \<and> py_in (asc ''>'') (take 1000 r) \<longrightarrow>
      handle_long_output r =
        asc ''[OUTPUT TRUNCATED: '' @ py_str_nat (length r) @ asc '' total characters]'' @ [10]
        @ asc ''[Contains '' @ py_str_nat (length (filter (prefix (asc ''>'')) (split_nl r)))
        @ asc '' sequences/entries]'' @ [10]
        @ asc ''[Showing first 10K characters below]'' @ [10]
        @ replicate 50 61 @ [10] @ take 10000 r)
   \<and> (5000 < length r \<and> length r \<le> 10000 \<longrightarrow>
      handle_long_output r =
        asc ''[Output length: '' @ py_str_nat (length r) @ asc '' characters]'' @ [10] @ r)
   \<and> (length r \<le> 5000 \<longrightarrow> handle_long_output r = r)
   \<and> decimal_value (py_str_nat (length r)) = length r
   \<and> (messages st \<noteq> []
       \<and> re_search_tag (asc ''<execute>'') (asc ''</execute>'')
            (if py_in (asc ''<execute>'') (content (last (messages st)))
                \<and> \<not> py_in (asc ''</execute>'') (content (last (messages st)))
             then content (last (messages st)) @ asc ''</execute>''
             else content (last (messages st))) = Some (i, code, e)
       \<and> r = run_code run code \<longrightarrow>
      execute run st =
        Inr (st\<lparr>messages := messages st
               @ [AIMessage (asc ''<observation>'' @ handle_long_output r @ asc ''</observation>'')]\<rparr>))"
proof (intro conjI impI)
  show "decimal_value (py_str_nat (length r)) = length r" by (rule decimal_value_py_str_nat)
next
  assume "messages st \<noteq> []
       \<and> re_search_tag (asc ''<execute>'') (asc ''</execute>'')
            (if py_in (asc ''<execute>'') (content (last (messages st)))
                \<and> \<not> py_in (asc ''</execute>'') (content (last (messages st)))
             then content (last (messages st)) @ asc ''</execute>''
             else content (last (messages st))) = Some (i, code, e)
       \<and> r = run_code run code"
  then show "execute run st =
        Inr (st\<lparr>messages := messages st
               @ [AIMessage (asc ''<observation>'' @ handle_long_output r @ asc ''</observation>'')]\<rparr>)"
    using py_strip_observation[of "handle_long_output r"]
    by (simp add: execute_def Let_def)
qed (simp_all add: handle_long_output_def MAX_OUTPUT_LENGTH_def SUMMARY_THRESHOLD_def Let_def)

lemma py_str_nat_12000: "py_str_nat 12000 = asc ''12000''"
  by (simp add: py_str_nat.simps asc_def)

lemma py_str_nat_6000: "py_str_nat 6000 = asc ''6000''"
  by (simp add: py_str_nat.simps asc_def)

lemma py_str_nat_10004: "py_str_nat 10004 = asc ''10004''"
  by (simp add: py_str_nat.simps asc_def)

lemma prefix_singleton_replicate: "prefix [c] (replicate n d) \<longleftrightarrow> 0 < n \<and> c = d"
  by (cases n) auto

theorem execute_output_size_policy_witness:
  "length (replicate 12000 (97::nat)) > 10000
   \<and> \<not> py_in (asc ''>'') (take 1000 (replicate 12000 97))
   \<and> handle_long_output (replicate 12000 97) =
        asc ''[OUTPUT TRUNCATED: 12000 total characters]'' @ [10]
        @ asc ''[First 10K characters shown below]'' @ [10]
        @ replicate 50 61 @ [10] @ replicate 10000 97
   \<and> length (asc ''>s'' @ 10 # replicate 10001 65) > 10000
   \<and> py_in (asc ''>'') (take 1000 (asc ''>s'' @ 10 # replicate 10001 65))
   \<and> handle_long_output (asc ''>s'' @ 10 # replicate 10001 65) =
        asc ''[OUTPUT TRUNCATED: 10004 total characters]'' @ [10]
        @ asc ''[Contains 1 sequences/entries]'' @ [10]
        @ asc ''[Showing first 10K characters below]'' @ [10]
        @ replicate 50 61 @ [10] @ asc ''>s'' @ 10 # replicate 9997 65
   \<and> 5000 < length (replicate 6000 (97::nat)) \<and> length (replicate 6000 (97::nat)) \<le> 10000
   \<and> handle_long_output (replicate 6000 97) =
        asc ''[Output length: 6000 characters]'' @ [10] @ replicate 6000 97
   \<and> length (asc ''4'') \<le> 5000
   \<and> execute (\<lambda>b c. asc ''4'')
        \<lparr>messages = [AIMessage (asc ''<execute>print(2+2)</execute>'')], next_step = Some Execute\<rparr>
      = Inr \<lparr>messages = [AIMessage (asc ''<execute>print(2+2)</execute>''),
                         AIMessage (asc ''<observation>4</observation>'')],
              next_step = Some Execute\<rparr>"
proof -
  have a: "length (replicate 12000 (97::nat)) > 10000
           \<and> \<not> py_in (asc ''>'') (take 1000 (replicate 12000 97))"
    by (simp add: asc_def py_in_singleton)
  have b: "5000 < length (replicate 6000 (97::nat)) \<and> length (replicate 6000 (97::nat)) \<le> 10000"
    by simp
  let ?f = "asc ''>s'' @ 10 # replicate 10001 65"
  have f: "length ?f > 10000 \<and> py_in (asc ''>'') (take 1000 ?f)"
    by (simp add: asc_def py_in_singleton)
  have fl: "length ?f = 10004" by (simp add: asc_def)
  have fs: "split_nl ?f = [asc ''>s'', replicate 10001 65]"
    by (subst split_nl_append_newline) (simp_all add: asc_def split_nl_no_newline)
  have ft: "take 10000 ?f = asc ''>s'' @ 10 # replicate 9997 65"
    by (simp add: asc_def)
  from execute_output_size_policy[of ?f] f
  have 4: "handle_long_output ?f =
        asc ''[OUTPUT TRUNCATED: 10004 total characters]'' @ [10]
        @ asc ''[Contains 1 sequences/entries]'' @ [10]
        @ asc ''[Showing first 10K characters below]'' @ [10]
        @ replicate 50 61 @ [10] @ asc ''>s'' @ 10 # replicate 9997 65"
    unfolding fl fs ft
    by (simp add: py_str_nat_10004 py_str_nat.simps prefix_singleton_replicate asc_def)
  have c: "length (asc ''4'') \<le> 5000" by (simp add: asc_def)
  let ?st = "\<lparr>messages = [AIMessage (asc ''<execute>print(2+2)</execute>'')], next_step = Some Execute\<rparr>"
  have d: "messages ?st \<noteq> []
       \<and> re_search_tag (asc ''<execute>'') (asc ''</execute>'')
            (if py_in (asc ''<execute>'') (content (last (messages ?st)))
                \<and> \<not> py_in (asc ''</execute>'') (content (last (messages ?st)))
             then content (last (messages ?st)) @ asc ''</execute>''
             else content (last (messages ?st))) = Some (0, asc ''print(2+2)'', 29)
       \<and> asc ''4'' = run_code (\<lambda>b c. asc ''4'') (asc ''print(2+2)'')"
    by (simp add: re_search_tag_def run_code_def eval_string Let_def)
  from execute_output_size_policy[of "replicate 12000 97"] a
  have 1: "handle_long_output (replicate 12000 97) =
        asc ''[OUTPUT TRUNCATED: 12000 total characters]'' @ [10]
        @ asc ''[First 10K characters shown below]'' @ [10]
        @ replicate 50 61 @ [10] @ replicate 10000 97"
    by (simp add: py_str_nat_12000 asc_def)
  from execute_output_size_policy[of "replicate 6000 97"] b
  have 2: "handle_long_output (replicate 6000 97) =
        asc ''[Output length: 6000 characters]'' @ [10] @ replicate 6000 97"
    by (simp add: py_str_nat_6000 asc_def)
  from execute_output_size_policy[of "asc ''4''" ?st 0 "asc ''print(2+2)''" 29 "\<lambda>b c. asc ''4''"] c d
  have 3: "execute (\<lambda>b c. asc ''4'') ?st
      = Inr \<lparr>messages = [AIMessage (asc ''<execute>print(2+2)</execute>''),
                         AIMessage (asc ''<observation>4</observation>'')],
              next_step = Some Execute\<rparr>"
    by (simp add: asc_def)
  from a b c f 1 2 3 4 show ?thesis by blast
qed


section \<open>The Controller: recovery from a failed model call\<close>

lemma truncate_last_observation_Suc:
  "truncate_last_observation msgs (Suc i) =
     (case long_observation (msgs ! i) of
        Some obs \<Rightarrow> msgs[i := AIMessage (truncated_observation obs)]
      | None \<Rightarrow> truncate_last_observation msgs i)"
  by (auto simp: long_observation_def split: message.splits option.splits)



lemma truncate_last_observation_cases:
  "truncate_last_observation msgs n = msgs
   \<or> (\<exists>i obs. i < n \<and> long_observation (msgs ! i) = Some obs
        \<and> truncate_last_observation msgs n = msgs[i := AIMessage (truncated_observation obs)])"
proof (induction n)
  case 0
  then show ?case by simp
next
  case (Suc n)
  show ?case
  proof (cases "long_observation (msgs ! n)")
    case None
    with Suc show ?thesis
      by (auto simp add: truncate_last_observation_Suc less_Suc_eq simp del: truncate_last_observation.simps(2))
  next
    case (Some obs)
    then show ?thesis
      by (auto simp add: truncate_last_observation_Suc simp del: truncate_last_observation.simps(2))
  qed
qed

lemma length_truncate_last_observation [simp]:
  "length (truncate_last_observation msgs n) = length msgs"
  using truncate_last_observation_cases[of msgs n] by auto










lemma long_observation_Human [simp]: "long_observation (HumanMessage c) = None"
  by (simp add: long_observation_def)









section \<open>The Controller: what a transition does to the message list\<close>









section \<open>The Event Classifier\<close>

text \<open>Each check leaves the list of events as it is or appends one event of its type.\<close>

lemma append_stamped_simps [simp]:
  "fst (append_stamped clk mk acc) = fst acc @ [mk (clk (snd acc))]"
  "snd (append_stamped clk mk acc) = Suc (snd acc)"
  by (simp_all add: append_stamped_def)

lemma check_planning_cases:
  "check_planning L clk text ev = ev
   \<or> (\<exists>e. ev_type e = ty_planning \<and> check_planning L clk text ev = (fst ev @ [e], Suc (snd ev)))"
  by (auto simp: check_planning_def append_stamped_def new_event_def Let_def)

lemma check_reasoning_cases:
  "check_reasoning clk text ev = ev
   \<or> (\<exists>e. ev_type e = ty_reasoning \<and> check_reasoning clk text ev = (fst ev @ [e], Suc (snd ev)))"
  by (auto simp: check_reasoning_def append_stamped_def new_event_def Let_def)

lemma check_execute_cases:
  "check_execute clk text ev = ev
   \<or> (\<exists>e. ev_type e = ty_tool_call \<and> check_execute clk text ev = (fst ev @ [e], Suc (snd ev)))"
  by (auto simp: check_execute_def append_stamped_def new_event_def split: option.splits)

lemma check_tag_cases:
  "check_tag otag ctag ty clk text ev = ev
   \<or> (\<exists>e. ev_type e = ty \<and> check_tag otag ctag ty clk text ev = (fst ev @ [e], Suc (snd ev)))"
  by (auto simp: check_tag_def append_stamped_def new_event_def split: option.splits)

lemma extracted_events_shape:
  "\<exists>a b c d e f.
     map ev_type (fst (extracted_events L clk t0 text)) = a @ b @ c @ d @ e @ f
     \<and> (a = [] \<or> a = [ty_planning]) \<and> (b = [] \<or> b = [ty_reasoning])
     \<and> (c = [] \<or> c = [ty_tool_call]) \<and> (d = [] \<or> d = [ty_tool_output])
     \<and> (e = [] \<or> e = [ty_final_result]) \<and> (f = [] \<or> f = [ty_thinking])
     \<and> snd (extracted_events L clk t0 text) = t0 + length (fst (extracted_events L clk t0 text))"
proof -
  define e1 where "e1 = check_planning L clk text ([], t0)"
  define e2 where "e2 = check_reasoning clk text e1"
  define e3 where "e3 = check_execute clk text e2"
  define e4 where "e4 = check_tag (asc ''<observe>'') (asc ''</observe>'') ty_tool_output clk text e3"
  define e5 where "e5 = check_tag (asc ''<solution>'') (asc ''</solution>'') ty_final_result clk text e4"
  define e6 where "e6 = check_tag (asc ''<think>'') (asc ''</think>'') ty_thinking clk text e5"
  have x: "extracted_events L clk t0 text = e6"
    by (simp add: extracted_events_def e1_def e2_def e3_def e4_def e5_def e6_def)
  obtain a where a: "map ev_type (fst e1) = a" "a = [] \<or> a = [ty_planning]" "snd e1 = t0 + length (fst e1)"
    using check_planning_cases[of L clk "text" "([], t0)"] unfolding e1_def by auto
  obtain b where b: "map ev_type (fst e2) = a @ b" "b = [] \<or> b = [ty_reasoning]" "snd e2 = t0 + length (fst e2)"
    using check_reasoning_cases[of clk "text" e1] a unfolding e2_def by auto
  obtain c where c: "map ev_type (fst e3) = a @ b @ c" "c = [] \<or> c = [ty_tool_call]" "snd e3 = t0 + length (fst e3)"
    using check_execute_cases[of clk "text" e2] b unfolding e3_def by auto
  obtain d where d: "map ev_type (fst e4) = a @ b @ c @ d" "d = [] \<or> d = [ty_tool_output]" "snd e4 = t0 + length (fst e4)"
    using check_tag_cases[of "asc ''<observe>''" "asc ''</observe>''" ty_tool_output clk "text" e3] c unfolding e4_def by auto
  obtain e where e: "map ev_type (fst e5) = a @ b @ c @ d @ e" "e = [] \<or> e = [ty_final_result]" "snd e5 = t0 + length (fst e5)"
    using check_tag_cases[of "asc ''<solution>''" "asc ''</solution>''" ty_final_result clk "text" e4] d unfolding e5_def by auto
  obtain f where f: "map ev_type (fst e6) = a @ b @ c @ d @ e @ f" "f = [] \<or> f = [ty_thinking]" "snd e6 = t0 + length (fst e6)"
    using check_tag_cases[of "asc ''<think>''" "asc ''</think>''" ty_thinking clk "text" e5] e unfolding e6_def by auto
  have "map ev_type (fst e6) = a @ b @ c @ d @ e @ f
     \<and> (a = [] \<or> a = [ty_planning]) \<and> (b = [] \<or> b = [ty_reasoning])
     \<and> (c = [] \<or> c = [ty_tool_call]) \<and> (d = [] \<or> d = [ty_tool_output])
     \<and> (e = [] \<or> e = [ty_final_result]) \<and> (f = [] \<or> f = [ty_thinking])
     \<and> snd e6 = t0 + length (fst e6)"
    using a(2) b(2) c(2) d(2) e(2) f by (intro conjI)
  then show ?thesis unfolding x by (intro exI)
qed

lemma extracted_events_sorted:
  "sorted_wrt (<) (map stage_rank (map ev_type (fst (extracted_events L clk t0 text))))"
proof -
  from extracted_events_shape[of L clk t0 "text"] obtain a b c d e f where
    "map ev_type (fst (extracted_events L clk t0 text)) = a @ b @ c @ d @ e @ f"
    "a = [] \<or> a = [ty_planning]" "b = [] \<or> b = [ty_reasoning]"
    "c = [] \<or> c = [ty_tool_call]" "d = [] \<or> d = [ty_tool_output]"
    "e = [] \<or> e = [ty_final_result]" "f = [] \<or> f = [ty_thinking]" by blast
  then show ?thesis by (elim disjE) simp_all
qed

lemma classify_message_multi_nonempty: "fst (classify_message_multi L clk t0 m) \<noteq> []"
  by (simp add: classify_message_multi_def Let_def)

text \<open>
  C10. \<^verbatim>\<open>_classify_message_multi\<close> never returns an empty list, and \<^verbatim>\<open>_classify_message\<close>
  returns its first element (after the same readings of the clock), so the default of
  \<^verbatim>\<open>_classify_message\<close> for an empty list is never taken.
\<close>

theorem classify_message_is_first_of_multi:
  "fst (classify_message_multi L clk t0 m) \<noteq> []
   \<and> classify_message L clk t0 m
       = (hd (fst (classify_message_multi L clk t0 m)), snd (classify_message_multi L clk t0 m))"
proof -
  have n: "fst (classify_message_multi L clk t0 m) \<noteq> []" by (rule classify_message_multi_nonempty)
  then show ?thesis
    by (cases "fst (classify_message_multi L clk t0 m)") (simp_all add: classify_message_def Let_def)
qed


end
